theory Spec2Isabelle
  imports Complex_Main
begin

section \<open>Lead stitcher: the matching and attribution engine\<close>

text \<open>
  A shallow embedding of the matcher service (\<^verbatim>\<open>runMatch\<close> and the functions it
  calls) and of the policy validator of the policies route
  (\<^verbatim>\<open>validatePolicyYaml\<close>).

  Conventions of the model.
  \<^item> A JavaScript \<^verbatim>\<open>Date\<close> is its \<^verbatim>\<open>getTime()\<close> value, an \<open>int\<close> of
    milliseconds. Numbers that are not identifiers or timestamps (windows, weights,
    similarities, amounts) are \<open>real\<close>, the real a double denotes; \<^verbatim>\<open>NaN\<close> and the
    infinities are not modelled. The window test rounds as doubles do; the other
    numbers are only compared and added.
  \<^item> An optional or nullable string is a \<open>string option\<close>; the JavaScript truth test
    of such a value (\<^verbatim>\<open>if (row.phone)\<close>, \<^verbatim>\<open>x || 'direct'\<close>) holds for a present,
    non-empty string only.
  \<^item> The database is a record of tables, each table a list of rows in storage order,
    passed through the functions that write to it.
  \<^item> What the service takes from outside the repository is a field of the record
    \<open>env\<close>: the Jaro-Winkler function of the package \<^verbatim>\<open>natural\<close>, number formatting,
    the identifier generator, the wall clock, and the failures of the database.
\<close>

subsection \<open>Strings\<close>

definition truthy :: "string option \<Rightarrow> bool" where
  "truthy v = (case v of None \<Rightarrow> False | Some s \<Rightarrow> s \<noteq> [])"

text \<open>\<^verbatim>\<open>v || d\<close> on an optional string.\<close>

definition orElse :: "string option \<Rightarrow> string \<Rightarrow> string" where
  "orElse v d = (case v of None \<Rightarrow> d | Some s \<Rightarrow> if s = [] then d else s)"

text \<open>
  \<^verbatim>\<open>toLowerCase\<close> on the ASCII letters; every other character is left as it is.
\<close>

definition toLowerChar :: "char \<Rightarrow> char" where
  "toLowerChar c =
     (case map_of (zip ''ABCDEFGHIJKLMNOPQRSTUVWXYZ'' ''abcdefghijklmnopqrstuvwxyz'') c of
        Some d \<Rightarrow> d
      | None \<Rightarrow> c)"

definition toLowerCase :: "string \<Rightarrow> string" where
  "toLowerCase s = map toLowerChar s"

definition isSpace :: "char \<Rightarrow> bool" where
  "isSpace c = (c \<in> set [CHR '' '', CHR 0x09, CHR 0x0A, CHR 0x0B, CHR 0x0C, CHR 0x0D])"

definition trim :: "string \<Rightarrow> string" where
  "trim s = rev (dropWhile isSpace (rev (dropWhile isSpace s)))"

fun startsWith :: "string \<Rightarrow> string \<Rightarrow> bool" where
  "startsWith s [] = True"
| "startsWith [] (y # ys) = False"
| "startsWith (x # xs) (y # ys) = (x = y \<and> startsWith xs ys)"

text \<open>\<^verbatim>\<open>s.includes(t)\<close>: \<open>t\<close> occurs in \<open>s\<close> as a contiguous substring.\<close>

fun includesStr :: "string \<Rightarrow> string \<Rightarrow> bool" where
  "includesStr [] t = (t = [])"
| "includesStr (x # xs) t = (startsWith (x # xs) t \<or> includesStr xs t)"

text \<open>Decimal rendering of a number inside a template literal.\<close>

fun showNat :: "nat \<Rightarrow> string" where
  "showNat n =
     (if n < 10 then [''0123456789'' ! n]
      else showNat (n div 10) @ [''0123456789'' ! (n mod 10)])"

declare showNat.simps [simp del]

definition showInt :: "int \<Rightarrow> string" where
  "showInt i = (if i < 0 then CHR ''-'' # showNat (nat (- i)) else showNat (nat i))"

subsection \<open>Data model\<close>

text \<open>
  \<^verbatim>\<open>NormRow\<close>, without the fields the matcher never reads (\<^verbatim>\<open>landingPage\<close>,
  \<^verbatim>\<open>externalId\<close>, \<^verbatim>\<open>original\<close>). The field \<^verbatim>\<open>id\<close> is \<open>rowId\<close>.
\<close>

record NormRow =
  rowId :: int
  accountId :: int
  uploadId :: int
  sourceType :: string
  occurredAt :: int
  name :: "string option"
  phone :: "string option"
  email :: "string option"
  gclid :: "string option"
  clientId :: "string option"
  utmSource :: "string option"
  utmMedium :: "string option"
  utmCampaign :: "string option"
  location :: "string option"
  durationSec :: "int option"
  amount :: "real option"

datatype attribution_mode = paid_last | first_touch | last_touch | call_first | equal_weight

record pass_table =
  phone_exact :: real
  email_exact :: real
  click_chain :: real
  fuzzy_match :: real

record confidence_table =
  two_deterministic :: real
  one_deterministic :: real
  click_only :: real
  fuzzy_only :: real

record PolicyConfig =
  policy_name :: string
  attribution_mode :: attribution_mode
  windows :: pass_table
  weights :: pass_table
  tie_breakers :: "string list"
  confidence_rules :: confidence_table

record MatchCandidate =
  stitchId :: int
  weight :: real
  pass :: string
  matchedOn :: "string list"
  reason :: string
  confidence :: real

record MatchResult =
  stitchedNew :: nat
  linksCreated :: nat
  errors :: "string list"

text \<open>The table \<^verbatim>\<open>stitched_leads\<close>; \<open>lead_ulid\<close> is its column \<^verbatim>\<open>stitch_id\<close>.\<close>

record StitchedLead =
  lead_id :: int
  lead_accountId :: int
  lead_ulid :: string
  leadCreatedAt :: int
  lead_name :: "string option"
  lead_phone :: "string option"
  lead_email :: "string option"
  lead_location :: "string option"
  revenue :: real
  lead_confidence :: real
  finalChannel :: "string option"
  finalSource :: "string option"
  finalMedium :: "string option"
  finalCampaign :: "string option"
  firstTouchSource :: "string option"
  lastTouchSource :: "string option"
  paidLastSource :: "string option"

text \<open>The tables \<^verbatim>\<open>stitch_links\<close> and \<^verbatim>\<open>audit_trail\<close> (their serial keys are never read).\<close>

record StitchLink =
  link_accountId :: int
  link_stitchId :: int
  normalizedRowId :: int
  matchPass :: string
  link_keys :: "string list"
  link_windowDays :: int
  link_reason :: string

record AuditEntry =
  audit_accountId :: int
  audit_stitchId :: int
  sourceFile :: string
  originalRowId :: int
  audit_keys :: "string list"
  audit_windowDays :: int
  audit_matchPass :: string
  audit_reason :: string

record UsageCounter =
  usage_accountId :: int
  periodStart :: int
  periodEnd :: int
  stitchedCount :: int

record db =
  normalizedRows :: "NormRow list"
  stitchedLeads :: "StitchedLead list"
  stitchedLeadsSeq :: int
  stitchLinks :: "StitchLink list"
  auditTrail :: "AuditEntry list"
  usageCounters :: "UsageCounter list"

text \<open>
  The database operations of one event, in the order the loop body reaches them. A
  failing operation throws an \<^verbatim>\<open>Error\<close> with a message.
\<close>

datatype stage =
  CheckUsage | FindCandidates | CreateStitch | IncrementUsage | InsertLink | InsertAudit
  | Recompute

text \<open>
  The surroundings of the service.
  \<^item> \<open>jaroWinkler\<close>: the function \<^verbatim>\<open>distance\<close> imported from \<^verbatim>\<open>natural\<close>.
  \<^item> \<open>toFixed2\<close>: \<^verbatim>\<open>Number.prototype.toFixed(2)\<close>.
  \<^item> \<open>ulid\<close>: the identifier \<^verbatim>\<open>ulid()\<close> returns for the lead that receives the
    given serial key.
  \<^item> \<open>monthBounds\<close>: for the event with the given row id, the pair
    \<^verbatim>\<open>(startOfMonth, endOfMonth)\<close> that \<^verbatim>\<open>checkUsageLimit\<close> computes from
    \<^verbatim>\<open>new Date()\<close> when that event is processed.
  \<^item> \<open>dbFault\<close>: for the event with the given row id and a stage, the message of the
    error the database throws there, if it throws.
  \<^item> \<open>selectFault\<close>: the same for the query that reads the batch before the loop.
\<close>

record env =
  jaroWinkler :: "string \<Rightarrow> string \<Rightarrow> real"
  toFixed2 :: "real \<Rightarrow> string"
  ulid :: "int \<Rightarrow> string"
  monthBounds :: "int \<Rightarrow> int \<times> int"
  dbFault :: "int \<Rightarrow> stage \<Rightarrow> string option"
  selectFault :: "string option"

subsection \<open>Candidate generator\<close>

definition generateMatchingKeys :: "NormRow \<Rightarrow> (string \<rightharpoonup> string)" where
  "generateMatchingKeys row =
     (let keys = Map.empty;
          keys = (if truthy (phone row) then keys(''phone'' \<mapsto> the (phone row)) else keys);
          keys = (if truthy (email row) then keys(''email'' \<mapsto> the (email row)) else keys);
          keys = (if truthy (gclid row) then keys(''gclid'' \<mapsto> the (gclid row)) else keys);
          keys = (if truthy (clientId row) then keys(''client_id'' \<mapsto> the (clientId row))
                  else keys);
          keys = (if truthy (name row) \<and> truthy (location row)
                  then keys(''fuzzy'' \<mapsto>
                         trim (toLowerCase (the (name row))) @ ''_''
                         @ trim (toLowerCase (the (location row))))
                  else keys)
      in keys)"

text \<open>
  The window test is computed in the numbers of the language, IEEE 754 doubles, and two
  of its operations round: the difference of the two times and the division by the
  milliseconds of a day. A double is the real it denotes; the operands of both
  operations are whole numbers, so the operations are modelled on naturals, with
  rounding to the nearest double and ties to the even mantissa. Results are doubles
  with a 53-bit mantissa of the normal range, which covers every quotient of a
  difference of times by a day (a time lies within 8.64e15 milliseconds of the epoch).
\<close>

text \<open>The length of the binary numeral of \<open>n\<close>.\<close>

fun bits :: "nat \<Rightarrow> nat" where
  "bits n = (if n = 0 then 0 else Suc (bits (n div 2)))"

declare bits.simps [simp del]

text \<open>The whole number nearest to \<open>a / b\<close>, the even one of two equally near.\<close>

definition roundHalfEven :: "nat \<Rightarrow> nat \<Rightarrow> nat" where
  "roundHalfEven a b =
     (let q = a div b; r = a mod b
      in if 2 * r < b then q else if b < 2 * r then q + 1 else if even q then q else q + 1)"

text \<open>The exponent \<open>e\<close> with \<open>2\<^sup>e \<le> p / q < 2\<^sup>e\<^sup>+\<^sup>1\<close>, for positive \<open>p\<close> and \<open>q\<close>.\<close>

definition exponentOf :: "nat \<Rightarrow> nat \<Rightarrow> int" where
  "exponentOf p q =
     (let d = int (bits p) - int (bits q)
      in if (if 0 \<le> d then q * 2 ^ nat d \<le> p else q \<le> p * 2 ^ nat (- d)) then d else d - 1)"

text \<open>
  The double \<open>p / q\<close> evaluates to: the quotient rounded to a multiple of the unit in the
  last place \<open>2\<^sup>e\<^sup>-\<^sup>5\<^sup>2\<close>.
\<close>

definition divDouble :: "nat \<Rightarrow> nat \<Rightarrow> real" where
  "divDouble p q =
     (if p = 0 then 0
      else
        let k = exponentOf p q - 52
        in if k \<le> 0 then real (roundHalfEven (p * 2 ^ nat (- k)) q) / 2 ^ nat (- k)
           else real (roundHalfEven p (q * 2 ^ nat k)) * 2 ^ nat k)"

text \<open>
  The double nearest to the whole number \<open>n\<close>: \<open>n\<close> itself below \<open>2\<^sup>5\<^sup>3\<close>. It is the
  value of \<^verbatim>\<open>Math.abs(a - b)\<close> for two times at distance \<open>n\<close>.
\<close>

definition roundToDouble :: "nat \<Rightarrow> nat" where
  "roundToDouble n =
     (let k = int (bits n) - 53
      in if k \<le> 0 then n else roundHalfEven n (2 ^ nat k) * 2 ^ nat k)"

definition isWithinWindow :: "int \<Rightarrow> int \<Rightarrow> real \<Rightarrow> bool" where
  "isWithinWindow date1 date2 windowDays =
     (let diffMs = roundToDouble (nat \<bar>date1 - date2\<bar>);
          diffDays = divDouble diffMs (1000 * 60 * 60 * 24)
      in diffDays \<le> windowDays)"

definition calculateSimilarity :: "env \<Rightarrow> string option \<Rightarrow> string option \<Rightarrow> real" where
  "calculateSimilarity e str1 str2 =
     (if \<not> truthy str1 \<or> \<not> truthy str2 then 0
      else jaroWinkler e (toLowerCase (the str1)) (toLowerCase (the str2)))"

definition calculateHammingDistance :: "string \<Rightarrow> string \<Rightarrow> nat" where
  "calculateHammingDistance str1 str2 =
     (if length str1 \<noteq> length str2 then max (length str1) (length str2)
      else length (filter (\<lambda>(a, b). a \<noteq> b) (zip str1 str2)))"

text \<open>P1: the leads of the account with the event's phone, kept when inside the window.\<close>

definition passP1 :: "NormRow \<Rightarrow> PolicyConfig \<Rightarrow> int \<Rightarrow> db \<Rightarrow> MatchCandidate list" where
  "passP1 row policy acct d =
     (let keys = generateMatchingKeys row in
      if keys ''phone'' \<noteq> None then
        let phoneMatches =
              filter (\<lambda>l. lead_accountId l = acct \<and> lead_phone l = keys ''phone'')
                (stitchedLeads d)
        in map (\<lambda>m. \<lparr> stitchId = lead_id m, weight = phone_exact (weights policy),
                       pass = ''P1'', matchedOn = [''phone''],
                       reason = ''Phone exact match: '' @ the (keys ''phone''),
                       confidence = one_deterministic (confidence_rules policy) \<rparr>)
             (filter (\<lambda>m. isWithinWindow (occurredAt row) (leadCreatedAt m)
                             (phone_exact (windows policy)))
                phoneMatches)
      else [])"

definition passP2 :: "NormRow \<Rightarrow> PolicyConfig \<Rightarrow> int \<Rightarrow> db \<Rightarrow> MatchCandidate list" where
  "passP2 row policy acct d =
     (let keys = generateMatchingKeys row in
      if keys ''email'' \<noteq> None then
        let emailMatches =
              filter (\<lambda>l. lead_accountId l = acct \<and> lead_email l = keys ''email'')
                (stitchedLeads d)
        in map (\<lambda>m. \<lparr> stitchId = lead_id m, weight = email_exact (weights policy),
                       pass = ''P2'', matchedOn = [''email''],
                       reason = ''Email exact match: '' @ the (keys ''email''),
                       confidence = one_deterministic (confidence_rules policy) \<rparr>)
             (filter (\<lambda>m. isWithinWindow (occurredAt row) (leadCreatedAt m)
                             (email_exact (windows policy)))
                emailMatches)
      else [])"

text \<open>
  P3: the join of \<^verbatim>\<open>normalized_rows\<close> with \<^verbatim>\<open>stitch_links\<close> on the row id, for the
  rows of the account carrying the click identifier; each match is a pair of the linked
  lead and the time of the earlier event.
\<close>

definition passP3 :: "NormRow \<Rightarrow> PolicyConfig \<Rightarrow> int \<Rightarrow> db \<Rightarrow> MatchCandidate list" where
  "passP3 row policy acct d =
     (let keys = generateMatchingKeys row;
          clickKey = (if truthy (keys ''gclid'') then keys ''gclid'' else keys ''client_id'')
      in
      if truthy clickKey then
        let clickMatches =
              concat (map (\<lambda>r. map (\<lambda>l. (link_stitchId l, occurredAt r))
                                 (filter (\<lambda>l. normalizedRowId l = rowId r) (stitchLinks d)))
                (filter (\<lambda>r. accountId r = acct \<and>
                               (if keys ''gclid'' \<noteq> None then gclid r = clickKey
                                else clientId r = clickKey))
                   (normalizedRows d)))
        in map (\<lambda>m. \<lparr> stitchId = fst m, weight = click_chain (weights policy),
                       pass = ''P3'',
                       matchedOn = [if keys ''gclid'' \<noteq> None then ''gclid'' else ''client_id''],
                       reason = ''Click chain match: '' @ the clickKey,
                       confidence = click_only (confidence_rules policy) \<rparr>)
             (filter (\<lambda>m. isWithinWindow (occurredAt row) (snd m)
                             (click_chain (windows policy)))
                clickMatches)
      else [])"

text \<open>
  P4: the condition under which the loop over the fuzzy matches reaches its
  \<^verbatim>\<open>candidates.push\<close>, each \<^verbatim>\<open>continue\<close> being a conjunct in the order of the source.
\<close>

definition fuzzyAccepts :: "env \<Rightarrow> NormRow \<Rightarrow> PolicyConfig \<Rightarrow> StitchedLead \<Rightarrow> bool" where
  "fuzzyAccepts e row policy m =
     (truthy (lead_name m) \<and> truthy (lead_location m) \<and>
      isWithinWindow (occurredAt row) (leadCreatedAt m) (fuzzy_match (windows policy)) \<and>
      \<not> calculateSimilarity e (name row) (lead_name m) < 0.88 \<and>
      (includesStr (toLowerCase (the (location row))) (toLowerCase (the (lead_location m))) \<or>
       includesStr (toLowerCase (the (lead_location m))) (toLowerCase (the (location row)))) \<and>
      (if truthy (phone row) \<and> truthy (lead_phone m)
       then calculateHammingDistance (the (phone row)) (the (lead_phone m)) \<le> 1
       else True))"

definition passP4 :: "env \<Rightarrow> NormRow \<Rightarrow> PolicyConfig \<Rightarrow> int \<Rightarrow> db \<Rightarrow> MatchCandidate list" where
  "passP4 e row policy acct d =
     (let keys = generateMatchingKeys row in
      if keys ''fuzzy'' \<noteq> None \<and> truthy (name row) \<and> truthy (location row) then
        let fuzzyMatches =
              filter (\<lambda>l. lead_accountId l = acct \<and> lead_name l \<noteq> None \<and>
                           lead_location l \<noteq> None)
                (stitchedLeads d)
        in map (\<lambda>m. \<lparr> stitchId = lead_id m, weight = fuzzy_match (weights policy),
                       pass = ''P4'', matchedOn = [''name'', ''location''],
                       reason = ''Fuzzy match: name similarity ''
                         @ toFixed2 e (calculateSimilarity e (name row) (lead_name m))
                         @ '', location match'',
                       confidence = fuzzy_only (confidence_rules policy) \<rparr>)
             (filter (fuzzyAccepts e row policy) fuzzyMatches)
      else [])"

definition findMatchingStitches ::
  "env \<Rightarrow> NormRow \<Rightarrow> PolicyConfig \<Rightarrow> int \<Rightarrow> db \<Rightarrow> MatchCandidate list" where
  "findMatchingStitches e row policy acct d =
     passP1 row policy acct d @ passP2 row policy acct d @ passP3 row policy acct d
     @ passP4 e row policy acct d"

subsection \<open>Candidate resolver\<close>

text \<open>
  The loop over \<^verbatim>\<open>policy.tie_breakers\<close>: \<open>Some\<close> is a \<^verbatim>\<open>return\<close> from inside the
  \<^verbatim>\<open>switch\<close>, \<open>None\<close> is the loop running to its end. The first three rules have
  empty bodies in the source; a name the \<^verbatim>\<open>switch\<close> does not list falls through.
\<close>

fun applyTieBreakers ::
  "string list \<Rightarrow> NormRow \<Rightarrow> MatchCandidate list \<Rightarrow> MatchCandidate option" where
  "applyTieBreakers [] row candidates = None"
| "applyTieBreakers (tieBreaker # rest) row candidates =
     (if tieBreaker = ''latest_event_time'' then applyTieBreakers rest row candidates
      else if tieBreaker = ''longer_call_duration'' then applyTieBreakers rest row candidates
      else if tieBreaker = ''higher_revenue'' then applyTieBreakers rest row candidates
      else if tieBreaker = ''call_over_form'' then
        (if sourceType row = ''calls'' then Some (candidates ! 0)
         else applyTieBreakers rest row candidates)
      else if tieBreaker = ''form_over_call'' then
        (if sourceType row = ''forms'' then Some (candidates ! 0)
         else applyTieBreakers rest row candidates)
      else applyTieBreakers rest row candidates)"

text \<open>
  \<^verbatim>\<open>candidates.sort((a, b) => b.weight - a.weight)\<close> sorts the array in place, by
  descending weight, and keeps the order of candidates of equal weight (the sort of
  the language is stable). The second component of the result is the array as the call
  leaves it.
\<close>

definition sortByWeight :: "MatchCandidate list \<Rightarrow> MatchCandidate list" where
  "sortByWeight candidates = sort_key (\<lambda>c. - weight c) candidates"

definition pickBestCandidate ::
  "MatchCandidate list \<Rightarrow> PolicyConfig \<Rightarrow> NormRow
     \<Rightarrow> MatchCandidate option \<times> MatchCandidate list" where
  "pickBestCandidate candidates policy row =
     (if length candidates = 0 then (None, candidates)
      else if length candidates = 1 then (Some (candidates ! 0), candidates)
      else
        let sorted = sortByWeight candidates in
        if weight (sorted ! 0) > weight (sorted ! 1) then (Some (sorted ! 0), sorted)
        else
          (case applyTieBreakers (tie_breakers policy) row sorted of
             Some w \<Rightarrow> (Some w, sorted)
           | None \<Rightarrow> (Some (sorted ! 0), sorted)))"

subsection \<open>Attribution recomputation\<close>

text \<open>
  The rows linked to a lead: the join of \<^verbatim>\<open>normalized_rows\<close> with \<^verbatim>\<open>stitch_links\<close>
  restricted to the lead, ordered by \<^verbatim>\<open>occurred_at\<close>.
\<close>

definition linkedRowsOf :: "db \<Rightarrow> int \<Rightarrow> NormRow list" where
  "linkedRowsOf d stitchDbId =
     sort_key occurredAt
       (concat (map (\<lambda>r. map (\<lambda>l. r)
                            (filter (\<lambda>l. normalizedRowId l = rowId r \<and>
                                          link_stitchId l = stitchDbId)
                               (stitchLinks d)))
          (normalizedRows d)))"

text \<open>
  \<^verbatim>\<open>row.utmMedium && ['cpc', 'paid', 'ppc'].includes(row.utmMedium.toLowerCase())\<close>
\<close>

definition isPaidMedium :: "NormRow \<Rightarrow> bool" where
  "isPaidMedium row =
     (truthy (utmMedium row) \<and>
      toLowerCase (the (utmMedium row)) \<in> set [''cpc'', ''paid'', ''ppc''])"

text \<open>
  The loop \<^verbatim>\<open>for (let i = linkedRows.length - 1; i >= 0; i--)\<close>; the second argument is
  \<open>i + 1\<close>, and the value is \<^verbatim>\<open>paidLastSource\<close> when the loop is left.
\<close>

fun paidLastLoop :: "NormRow list \<Rightarrow> nat \<Rightarrow> string" where
  "paidLastLoop linkedRows 0 = []"
| "paidLastLoop linkedRows (Suc i) =
     (let row = linkedRows ! i in
      if isPaidMedium row then orElse (utmSource row) ''paid''
      else paidLastLoop linkedRows i)"

record attribution =
  attr_finalChannel :: string
  attr_finalSource :: string
  attr_finalMedium :: string
  attr_finalCampaign :: string
  attr_firstTouchSource :: string
  attr_lastTouchSource :: string
  attr_paidLastSource :: string
  attr_revenue :: real

text \<open>
  The \<^verbatim>\<open>switch (policy.attribution_mode)\<close>: the triple
  \<^verbatim>\<open>(finalSource, finalMedium, finalCampaign)\<close>, each initialised to the empty string
  (a primed name is the local variable of the source, the plain name being the column).
  The \<^verbatim>\<open>switch\<close> has four cases and no default. In the case \<^verbatim>\<open>paid_last\<close> the
  array is reversed in place before the search; nothing after it depends on the order.
\<close>

definition finalTriple ::
  "attribution_mode \<Rightarrow> NormRow list \<Rightarrow> string \<times> string \<times> string" where
  "finalTriple mode linkedRows =
     (let firstRow = linkedRows ! 0;
          firstTouchSource' = orElse (utmSource firstRow) ''direct'';
          lastRow = linkedRows ! (length linkedRows - 1);
          lastTouchSource' = orElse (utmSource lastRow) ''direct'';
          paidLastSource' = paidLastLoop linkedRows (length linkedRows)
      in case mode of
           first_touch \<Rightarrow>
             (firstTouchSource', orElse (utmMedium firstRow) [],
              orElse (utmCampaign firstRow) [])
         | last_touch \<Rightarrow>
             (lastTouchSource', orElse (utmMedium lastRow) [],
              orElse (utmCampaign lastRow) [])
         | paid_last \<Rightarrow>
             (if paidLastSource' \<noteq> [] then
                (case find (\<lambda>r. utmSource r = Some paidLastSource' \<and> isPaidMedium r)
                        (rev linkedRows) of
                   Some paidRow \<Rightarrow>
                     (orElse (utmSource paidRow) [], orElse (utmMedium paidRow) [],
                      orElse (utmCampaign paidRow) [])
                 | None \<Rightarrow> ([], [], []))
              else
                (lastTouchSource', orElse (utmMedium lastRow) [],
                 orElse (utmCampaign lastRow) []))
         | call_first \<Rightarrow>
             (case find (\<lambda>r. sourceType r = ''calls'') linkedRows of
                Some callRow \<Rightarrow>
                  (orElse (utmSource callRow) ''phone'', orElse (utmMedium callRow) ''call'',
                   orElse (utmCampaign callRow) [])
              | None \<Rightarrow>
                  (lastTouchSource', orElse (utmMedium lastRow) [],
                   orElse (utmCampaign lastRow) []))
         | equal_weight \<Rightarrow> ([], [], []))"

definition channelOf :: "string \<Rightarrow> string" where
  "channelOf finalMedium' =
     (if finalMedium' \<noteq> [] then
        let medium = toLowerCase finalMedium' in
        if medium \<in> set [''cpc'', ''ppc'', ''paid''] then ''paid_search''
        else if medium \<in> set [''social'', ''facebook'', ''linkedin''] then ''social''
        else if medium = ''email'' then ''email''
        else if medium = ''organic'' then ''organic_search''
        else ''other''
      else ''direct'')"

text \<open>
  Everything \<^verbatim>\<open>recomputeAttribution\<close> computes between its query and its update, for
  a non-empty list of linked rows.
\<close>

definition computeAttribution :: "NormRow list \<Rightarrow> PolicyConfig \<Rightarrow> attribution" where
  "computeAttribution linkedRows policy =
     (let firstRow = linkedRows ! 0;
          lastRow = linkedRows ! (length linkedRows - 1);
          (finalSource', finalMedium', finalCampaign') =
             finalTriple (attribution_mode policy) linkedRows
      in \<lparr> attr_finalChannel = channelOf finalMedium',
           attr_finalSource = finalSource',
           attr_finalMedium = finalMedium',
           attr_finalCampaign = finalCampaign',
           attr_firstTouchSource = orElse (utmSource firstRow) ''direct'',
           attr_lastTouchSource = orElse (utmSource lastRow) ''direct'',
           attr_paidLastSource = paidLastLoop linkedRows (length linkedRows),
           attr_revenue =
             sum_list (map (\<lambda>row. case amount row of None \<Rightarrow> 0 | Some a \<Rightarrow> a) linkedRows) \<rparr>)"

definition setAttribution :: "attribution \<Rightarrow> StitchedLead \<Rightarrow> StitchedLead" where
  "setAttribution a l =
     l\<lparr> finalChannel := Some (attr_finalChannel a),
        finalSource := Some (attr_finalSource a),
        finalMedium := Some (attr_finalMedium a),
        finalCampaign := Some (attr_finalCampaign a),
        firstTouchSource := Some (attr_firstTouchSource a),
        lastTouchSource := Some (attr_lastTouchSource a),
        paidLastSource := Some (attr_paidLastSource a),
        revenue := attr_revenue a \<rparr>"

text \<open>The query, the early return on no linked row, and the update of the lead.\<close>

definition recomputeAttribution :: "db \<Rightarrow> int \<Rightarrow> PolicyConfig \<Rightarrow> db" where
  "recomputeAttribution d stitchDbId policy =
     (let linkedRows = linkedRowsOf d stitchDbId in
      if length linkedRows = 0 then d
      else
        d\<lparr> stitchedLeads :=
             map (\<lambda>l. if lead_id l = stitchDbId
                       then setAttribution (computeAttribution linkedRows policy) l else l)
               (stitchedLeads d) \<rparr>)"

subsection \<open>Lead ledger and match orchestrator\<close>

text \<open>
  What the loop body can throw: a plain \<^verbatim>\<open>Error\<close> or the \<^verbatim>\<open>UsageLimitError\<close> of
  the error handler, each with its message.
\<close>

datatype error = Error string | UsageLimitError string

fun message :: "error \<Rightarrow> string" where
  "message (Error m) = m"
| "message (UsageLimitError m) = m"

text \<open>
  A database operation that can fail: the error of the stage for the event, if the
  surroundings make it fail.
\<close>

definition faultAt :: "env \<Rightarrow> NormRow \<Rightarrow> stage \<Rightarrow> error option" where
  "faultAt e row st = map_option Error (dbFault e (rowId row) st)"

text \<open>
  \<^verbatim>\<open>checkUsageLimit\<close>, called for the event \<open>row\<close>. The query takes the first counter
  of the account whose period lies inside the current month; the limit is the constant
  of the source, which does not read the plan of the account.
\<close>

definition currentUsage :: "env \<Rightarrow> db \<Rightarrow> int \<Rightarrow> NormRow \<Rightarrow> UsageCounter list" where
  "currentUsage e d acct row =
     (let (startOfMonth, endOfMonth) = monthBounds e (rowId row) in
      take 1 (filter (\<lambda>u. usage_accountId u = acct \<and> periodStart u \<ge> startOfMonth \<and>
                           periodEnd u \<le> endOfMonth)
                (usageCounters d)))"

definition limit :: int where
  "limit = 250"

definition checkUsageLimit :: "env \<Rightarrow> db \<Rightarrow> int \<Rightarrow> NormRow \<Rightarrow> error option" where
  "checkUsageLimit e d acct row =
     (case faultAt e row CheckUsage of
        Some err \<Rightarrow> Some err
      | None \<Rightarrow>
          let usage = currentUsage e d acct row in
          if length usage = 0 then Some (Error ''Usage counter not found'')
          else if stitchedCount (usage ! 0) \<ge> limit
          then Some (UsageLimitError
                       (''Monthly limit of '' @ showInt limit @ '' stitched leads exceeded''))
          else None)"

text \<open>
  \<^verbatim>\<open>createNewStitch\<close>: the insert, returning the serial key of the new lead.
\<close>

definition createNewStitch :: "env \<Rightarrow> NormRow \<Rightarrow> int \<Rightarrow> db \<Rightarrow> error + (db \<times> int)" where
  "createNewStitch e row acct d =
     (case faultAt e row CreateStitch of
        Some err \<Rightarrow> Inl err
      | None \<Rightarrow>
          let newId = stitchedLeadsSeq d + 1;
              stitch = \<lparr> lead_id = newId, lead_accountId = acct, lead_ulid = ulid e newId,
                         leadCreatedAt = occurredAt row, lead_name = name row,
                         lead_phone = phone row, lead_email = email row,
                         lead_location = location row,
                         revenue = (case amount row of None \<Rightarrow> 0 | Some a \<Rightarrow> a),
                         lead_confidence = 1,
                         finalChannel = None, finalSource = None, finalMedium = None,
                         finalCampaign = None, firstTouchSource = None,
                         lastTouchSource = None, paidLastSource = None \<rparr>
          in Inr (d\<lparr> stitchedLeads := stitchedLeads d @ [stitch], stitchedLeadsSeq := newId \<rparr>,
                  newId))"

text \<open>
  The update of \<^verbatim>\<open>usage_counters\<close> in the branch that creates a lead: every counter
  of the account is incremented.
\<close>

definition bumpUsage :: "int \<Rightarrow> UsageCounter \<Rightarrow> UsageCounter" where
  "bumpUsage acct u =
     (if usage_accountId u = acct then u\<lparr> stitchedCount := stitchedCount u + 1 \<rparr> else u)"

definition incrementUsage :: "env \<Rightarrow> NormRow \<Rightarrow> int \<Rightarrow> db \<Rightarrow> error + db" where
  "incrementUsage e row acct d =
     (case faultAt e row IncrementUsage of
        Some err \<Rightarrow> Inl err
      | None \<Rightarrow> Inr (d\<lparr> usageCounters := map (bumpUsage acct) (usageCounters d) \<rparr>))"

text \<open>
  \<^verbatim>\<open>linkRowToStitch\<close>: the insert of the link, then the insert of the audit entry.
  The database after the call comes with the error, if one was thrown; a failure of
  the second insert leaves the link in place.
\<close>

definition passOr :: "MatchCandidate option \<Rightarrow> string" where
  "passOr candidate =
     (case candidate of None \<Rightarrow> ''NEW'' | Some c \<Rightarrow> if pass c = [] then ''NEW'' else pass c)"

definition keysOr :: "MatchCandidate option \<Rightarrow> string list" where
  "keysOr candidate = (case candidate of None \<Rightarrow> [] | Some c \<Rightarrow> matchedOn c)"

definition reasonOr :: "MatchCandidate option \<Rightarrow> string" where
  "reasonOr candidate =
     (case candidate of
        None \<Rightarrow> ''New lead created''
      | Some c \<Rightarrow> if reason c = [] then ''New lead created'' else reason c)"

definition linkRowToStitch ::
  "env \<Rightarrow> NormRow \<Rightarrow> int \<Rightarrow> MatchCandidate option \<Rightarrow> db \<Rightarrow> db \<times> error option" where
  "linkRowToStitch e row stitchDbId candidate d =
     (case faultAt e row InsertLink of
        Some err \<Rightarrow> (d, Some err)
      | None \<Rightarrow>
          (let d1 = d\<lparr> stitchLinks := stitchLinks d @
                        [\<lparr> link_accountId = accountId row, link_stitchId = stitchDbId,
                           normalizedRowId = rowId row, matchPass = passOr candidate,
                           link_keys = keysOr candidate, link_windowDays = 0,
                           link_reason = reasonOr candidate \<rparr>] \<rparr>
           in (case faultAt e row InsertAudit of
                 Some err \<Rightarrow> (d1, Some err)
               | None \<Rightarrow>
                   (d1\<lparr> auditTrail := auditTrail d1 @
                          [\<lparr> audit_accountId = accountId row, audit_stitchId = stitchDbId,
                             sourceFile = ''upload_'' @ showInt (uploadId row),
                             originalRowId = rowId row, audit_keys = keysOr candidate,
                             audit_windowDays = 0, audit_matchPass = passOr candidate,
                             audit_reason = reasonOr candidate \<rparr>] \<rparr>,
                    None))))"

text \<open>
  The end of the \<^verbatim>\<open>try\<close> block, common to both branches: link the row, count the link,
  recompute the attribution of the lead.
\<close>

definition linkAndRecompute ::
  "env \<Rightarrow> PolicyConfig \<Rightarrow> NormRow \<Rightarrow> int \<Rightarrow> MatchCandidate option
     \<Rightarrow> db \<times> MatchResult \<Rightarrow> (db \<times> MatchResult) \<times> error option" where
  "linkAndRecompute e policy row stitchDbId winner s =
     (case linkRowToStitch e row stitchDbId winner (fst s) of
        (d1, Some err) \<Rightarrow> ((d1, snd s), Some err)
      | (d1, None) \<Rightarrow>
          let result = (snd s)\<lparr> linksCreated := linksCreated (snd s) + 1 \<rparr> in
          (case faultAt e row Recompute of
             Some err \<Rightarrow> ((d1, result), Some err)
           | None \<Rightarrow> ((recomputeAttribution d1 stitchDbId policy, result), None)))"

text \<open>
  The \<^verbatim>\<open>try\<close> block of the loop of \<^verbatim>\<open>runMatch\<close> for one event: the database and the
  result as the block leaves them, and the error it threw, if any.
\<close>

definition tryBody ::
  "env \<Rightarrow> PolicyConfig \<Rightarrow> int \<Rightarrow> NormRow \<Rightarrow> db \<times> MatchResult
     \<Rightarrow> (db \<times> MatchResult) \<times> error option" where
  "tryBody e policy acct row s =
     (case checkUsageLimit e (fst s) acct row of
        Some err \<Rightarrow> (s, Some err)
      | None \<Rightarrow>
          (case faultAt e row FindCandidates of
             Some err \<Rightarrow> (s, Some err)
           | None \<Rightarrow>
               (let candidates = findMatchingStitches e row policy acct (fst s);
                    winner = fst (pickBestCandidate candidates policy row)
                in (case winner of
                      Some w \<Rightarrow> linkAndRecompute e policy row (stitchId w) winner s
                    | None \<Rightarrow>
                        (case createNewStitch e row acct (fst s) of
                           Inl err \<Rightarrow> (s, Some err)
                         | Inr (d1, stitchDbId) \<Rightarrow>
                             (let result = (snd s)\<lparr> stitchedNew := stitchedNew (snd s) + 1 \<rparr>
                              in (case incrementUsage e row acct d1 of
                                    Inl err \<Rightarrow> ((d1, result), Some err)
                                  | Inr d2 \<Rightarrow>
                                      linkAndRecompute e policy row stitchDbId winner
                                        (d2, result))))))))"

text \<open>The \<^verbatim>\<open>catch\<close> block: the message pushed on \<^verbatim>\<open>result.errors\<close>.\<close>

definition errorMsg :: "NormRow \<Rightarrow> error \<Rightarrow> string" where
  "errorMsg row err = ''Failed to process row '' @ showInt (rowId row) @ '': '' @ message err"

definition processRow ::
  "env \<Rightarrow> PolicyConfig \<Rightarrow> int \<Rightarrow> db \<times> MatchResult \<Rightarrow> NormRow \<Rightarrow> db \<times> MatchResult" where
  "processRow e policy acct s row =
     (case tryBody e policy acct row s of
        (s1, None) \<Rightarrow> s1
      | (s1, Some err) \<Rightarrow> (fst s1, (snd s1)\<lparr> errors := errors (snd s1) @ [errorMsg row err] \<rparr>))"

definition processRows ::
  "env \<Rightarrow> PolicyConfig \<Rightarrow> int \<Rightarrow> db \<times> MatchResult \<Rightarrow> NormRow list \<Rightarrow> db \<times> MatchResult" where
  "processRows e policy acct s rows = foldl (processRow e policy acct) s rows"

text \<open>
  The batch: the rows of the account in the given uploads, ordered by
  \<^verbatim>\<open>occurred_at\<close>.
\<close>

definition selectRows :: "db \<Rightarrow> int \<Rightarrow> int list \<Rightarrow> NormRow list" where
  "selectRows d acct uploadIds =
     sort_key occurredAt
       (filter (\<lambda>r. accountId r = acct \<and> uploadId r \<in> set uploadIds) (normalizedRows d))"

text \<open>
  \<^verbatim>\<open>runMatch\<close>, from the parsed policy on: \<open>Inl\<close> is the error the outer
  \<^verbatim>\<open>catch\<close> rethrows, \<open>Inr\<close> the database after the job with the returned result.
\<close>

definition runMatch ::
  "env \<Rightarrow> int \<Rightarrow> int list \<Rightarrow> PolicyConfig \<Rightarrow> db \<Rightarrow> error + (db \<times> MatchResult)" where
  "runMatch e acct uploadIds policy d =
     (let result = \<lparr> stitchedNew = 0, linksCreated = 0, errors = [] \<rparr> in
      case selectFault e of
        Some m \<Rightarrow> Inl (Error m)
      | None \<Rightarrow> Inr (processRows e policy acct (d, result) (selectRows d acct uploadIds)))"

subsection \<open>Policy validation\<close>

text \<open>
  The value \<^verbatim>\<open>parseYaml\<close> returns for a policy document. The parser belongs to the
  package \<^verbatim>\<open>yaml\<close>; the validator is modelled on its result, \<open>Inl\<close> being the
  message of the error the parser throws on a document it cannot read.
\<close>

datatype yaml =
  YNull | YBool bool | YNum real | YStr string | YSeq "yaml list"
  | YMap "(string \<times> yaml) list"

text \<open>
  \<^verbatim>\<open>policy.k\<close> for one of the four keys the validator reads, on a value that is not
  \<^verbatim>\<open>null\<close>; \<open>None\<close> is \<^verbatim>\<open>undefined\<close>. Only a mapping has such a property.
\<close>

definition getProp :: "yaml \<Rightarrow> string \<Rightarrow> yaml option" where
  "getProp v k = (case v of YMap kvs \<Rightarrow> map_of kvs k | _ \<Rightarrow> None)"

text \<open>The truth test \<^verbatim>\<open>!x\<close> negates.\<close>

definition jsTruthy :: "yaml option \<Rightarrow> bool" where
  "jsTruthy v =
     (case v of
        None \<Rightarrow> False
      | Some YNull \<Rightarrow> False
      | Some (YBool b) \<Rightarrow> b
      | Some (YNum n) \<Rightarrow> n \<noteq> 0
      | Some (YStr s) \<Rightarrow> s \<noteq> []
      | Some (YSeq xs) \<Rightarrow> True
      | Some (YMap kvs) \<Rightarrow> True)"

text \<open>\<^verbatim>\<open>typeof x === 'string'\<close> and \<^verbatim>\<open>typeof x === 'object'\<close>.\<close>

definition typeofString :: "yaml option \<Rightarrow> bool" where
  "typeofString v = (case v of Some (YStr s) \<Rightarrow> True | _ \<Rightarrow> False)"

definition typeofObject :: "yaml option \<Rightarrow> bool" where
  "typeofObject v =
     (case v of Some YNull \<Rightarrow> True | Some (YSeq xs) \<Rightarrow> True | Some (YMap kvs) \<Rightarrow> True
      | _ \<Rightarrow> False)"

definition attributionModes :: "string list" where
  "attributionModes = [''paid_last'', ''first_touch'', ''last_touch'', ''call_first'', ''equal_weight'']"

definition modeIncluded :: "yaml option \<Rightarrow> bool" where
  "modeIncluded v = (case v of Some (YStr s) \<Rightarrow> s \<in> set attributionModes | _ \<Rightarrow> False)"

text \<open>
  The body of the \<^verbatim>\<open>try\<close> block after the parse: the message of the error it throws,
  if any. Reading a property of \<^verbatim>\<open>null\<close> throws a \<^verbatim>\<open>TypeError\<close>.
\<close>

definition structureError :: "yaml \<Rightarrow> string option" where
  "structureError policy =
     (if policy = YNull then Some (''Cannot read properties of null (reading '' @ [CHR 0x27] @ ''name''
                 @ [CHR 0x27] @ '')'')
      else if \<not> jsTruthy (getProp policy ''name'') \<or> \<not> typeofString (getProp policy ''name'')
      then Some ''Policy must have a name''
      else if \<not> jsTruthy (getProp policy ''attribution_mode'') \<or>
              \<not> modeIncluded (getProp policy ''attribution_mode'')
      then Some ''Policy must have a valid attribution_mode''
      else if \<not> jsTruthy (getProp policy ''windows'') \<or> \<not> typeofObject (getProp policy ''windows'')
      then Some ''Policy must have windows configuration''
      else if \<not> jsTruthy (getProp policy ''weights'') \<or> \<not> typeofObject (getProp policy ''weights'')
      then Some ''Policy must have weights configuration''
      else None)"

datatype policy_error = ValidationError string

definition validatePolicyYaml :: "string + yaml \<Rightarrow> policy_error + yaml" where
  "validatePolicyYaml parsed =
     (case parsed of
        Inl m \<Rightarrow> Inl (ValidationError (''Invalid YAML policy: '' @ m))
      | Inr policy \<Rightarrow>
          (case structureError policy of
             Some m \<Rightarrow> Inl (ValidationError (''Invalid YAML policy: '' @ m))
           | None \<Rightarrow> Inr policy))"

subsection \<open>The statements of the specification\<close>

text \<open>
  The specification gives the final usage counter of a job as a function of the plan
  limit \<open>L\<close>, the initial counter \<open>U\<close> and the number of leads the job created.
\<close>

definition spec_finalUsage :: "int \<Rightarrow> int \<Rightarrow> nat \<Rightarrow> int" where
  "spec_finalUsage L U newLeadCount = min L (U + int newLeadCount)"

text \<open>
  The specification of \<^verbatim>\<open>paid_last_source\<close>: scan from the latest linked event to the
  earliest, the first event whose medium is one of the three paid media, compared without
  regard to case, supplies its source; with no such event the field is empty.
\<close>

definition spec_paidMedium :: "NormRow \<Rightarrow> bool" where
  "spec_paidMedium row =
     (case utmMedium row of
        None \<Rightarrow> False
      | Some m \<Rightarrow> toLowerCase m \<in> set [''cpc'', ''paid'', ''ppc''])"

definition spec_paidLastSource :: "NormRow list \<Rightarrow> string" where
  "spec_paidLastSource linkedRows =
     (case find spec_paidMedium (rev linkedRows) of
        None \<Rightarrow> []
      | Some row \<Rightarrow> (case utmSource row of None \<Rightarrow> [] | Some src \<Rightarrow> src))"

text \<open>The same, the paid event without a source supplying the word \<^verbatim>\<open>paid\<close>.\<close>

definition amended_paidLastSource :: "NormRow list \<Rightarrow> string" where
  "amended_paidLastSource linkedRows =
     (case find spec_paidMedium (rev linkedRows) of
        None \<Rightarrow> []
      | Some row \<Rightarrow>
          (case utmSource row of None \<Rightarrow> ''paid'' | Some src \<Rightarrow> if src = [] then ''paid'' else src))"

text \<open>
  The specification of the policy parser: a document is accepted when it can be read
  and has a name, a recognised attribution mode, a map of windows and a map of weights.
\<close>

definition spec_hasName :: "yaml \<Rightarrow> bool" where
  "spec_hasName policy =
     (case getProp policy ''name'' of Some (YStr n) \<Rightarrow> n \<noteq> [] | _ \<Rightarrow> False)"

definition spec_hasMode :: "yaml \<Rightarrow> bool" where
  "spec_hasMode policy =
     (case getProp policy ''attribution_mode'' of
        Some (YStr m) \<Rightarrow> m \<in> set attributionModes
      | _ \<Rightarrow> False)"

definition spec_hasMap :: "yaml \<Rightarrow> string \<Rightarrow> bool" where
  "spec_hasMap policy k = (case getProp policy k of Some (YMap kvs) \<Rightarrow> True | _ \<Rightarrow> False)"

definition spec_policyAccepted :: "string + yaml \<Rightarrow> bool" where
  "spec_policyAccepted parsed =
     (case parsed of
        Inl m \<Rightarrow> False
      | Inr policy \<Rightarrow>
          spec_hasName policy \<and> spec_hasMode policy \<and> spec_hasMap policy ''windows'' \<and>
          spec_hasMap policy ''weights'')"

text \<open>The same, a sequence standing for a map of windows or of weights as well.\<close>

definition amended_hasMapOrSeq :: "yaml \<Rightarrow> string \<Rightarrow> bool" where
  "amended_hasMapOrSeq policy k =
     (case getProp policy k of
        Some (YMap kvs) \<Rightarrow> True
      | Some (YSeq xs) \<Rightarrow> True
      | _ \<Rightarrow> False)"

definition amended_policyAccepted :: "string + yaml \<Rightarrow> bool" where
  "amended_policyAccepted parsed =
     (case parsed of
        Inl m \<Rightarrow> False
      | Inr policy \<Rightarrow>
          spec_hasName policy \<and> spec_hasMode policy \<and> amended_hasMapOrSeq policy ''windows'' \<and>
          amended_hasMapOrSeq policy ''weights'')"

subsection \<open>Sample data\<close>

text \<open>
  The default policy \<^verbatim>\<open>paid_last_roofing\<close> of the policies route, and the same under
  two other attribution modes.
\<close>

definition ex_policy :: PolicyConfig where
  "ex_policy =
     \<lparr> policy_name = ''Paid-Last Roofing Default'',
       attribution_mode = paid_last,
       windows = \<lparr> phone_exact = 30, email_exact = 30, click_chain = 7, fuzzy_match = 1 \<rparr>,
       weights = \<lparr> phone_exact = 1, email_exact = 0.9, click_chain = 0.7, fuzzy_match = 0.5 \<rparr>,
       tie_breakers = [''latest_event_time'', ''longer_call_duration'', ''higher_revenue''],
       confidence_rules = \<lparr> two_deterministic = 1, one_deterministic = 0.9, click_only = 0.7,
                             fuzzy_only = 0.5 \<rparr> \<rparr>"

definition ex_policy_equal :: PolicyConfig where
  "ex_policy_equal = ex_policy\<lparr> attribution_mode := equal_weight \<rparr>"

definition ex_policy_last :: PolicyConfig where
  "ex_policy_last = ex_policy\<lparr> attribution_mode := last_touch \<rparr>"

text \<open>
  Surroundings without failures: a month that starts at time 0 and whose last day starts
  30 days later, and a similarity function that tells equal names from different ones.
\<close>

definition day :: int where
  "day = 1000 * 60 * 60 * 24"

definition ex_env :: env where
  "ex_env =
     \<lparr> jaroWinkler = (\<lambda>a b. if a = b then 1 else 0),
       toFixed2 = (\<lambda>x. if x = 1 then ''1.00'' else ''0.00''),
       ulid = (\<lambda>i. ''01J'' @ showInt i),
       monthBounds = (\<lambda>rid. (0, 30 * day)),
       dbFault = (\<lambda>rid st. None),
       selectFault = None \<rparr>"

text \<open>The same, every pair of names having similarity 0.85.\<close>

definition ex_env85 :: env where
  "ex_env85 = ex_env\<lparr> jaroWinkler := (\<lambda>a b. 0.85) \<rparr>"

text \<open>The same, the insert of the link failing for the event with row id 2.\<close>

definition ex_env_fault :: env where
  "ex_env_fault =
     ex_env\<lparr> dbFault := (\<lambda>rid st. if rid = 2 \<and> st = InsertLink then Some ''connection reset''
                                   else None) \<rparr>"

definition blankRow :: NormRow where
  "blankRow =
     \<lparr> rowId = 0, accountId = 1, uploadId = 1, sourceType = ''forms'', occurredAt = 0,
       name = None, phone = None, email = None, gclid = None, clientId = None,
       utmSource = None, utmMedium = None, utmCampaign = None, location = None,
       durationSec = None, amount = None \<rparr>"

definition ex_row1 :: NormRow where
  "ex_row1 = blankRow\<lparr> rowId := 1, occurredAt := 1 * day \<rparr>"

definition ex_row2 :: NormRow where
  "ex_row2 = blankRow\<lparr> rowId := 2, occurredAt := 2 * day \<rparr>"

definition ex_row3 :: NormRow where
  "ex_row3 = blankRow\<lparr> rowId := 3, occurredAt := 3 * day \<rparr>"

text \<open>A call from the phone of the lead below, 29 days and 31 days after its creation.\<close>

definition ex_call29 :: NormRow where
  "ex_call29 =
     blankRow\<lparr> rowId := 7, sourceType := ''calls'', occurredAt := 29 * day,
                phone := Some ''5550100'' \<rparr>"

definition ex_call31 :: NormRow where
  "ex_call31 = ex_call29\<lparr> occurredAt := 31 * day \<rparr>"

text \<open>
  A call from the same phone eight hours after the creation of the lead, and the sample
  policy with a window of a third of a day for the phone: the double that the numeral
  \<^verbatim>\<open>0.3333333333333333\<close> denotes, which is \<open>6004799503160661 / 2\<^sup>5\<^sup>4\<close>.
\<close>

definition ex_call8h :: NormRow where
  "ex_call8h = ex_call29\<lparr> occurredAt := 28800000 \<rparr>"

definition ex_policy_third :: PolicyConfig where
  "ex_policy_third =
     ex_policy\<lparr> windows := (windows ex_policy)\<lparr> phone_exact := 6004799503160661 / 2 ^ 54 \<rparr> \<rparr>"

text \<open>A form with another spelling of the name, the same location and the same phone.\<close>

definition ex_form :: NormRow where
  "ex_form =
     blankRow\<lparr> rowId := 8, name := Some ''Anne Lee'', location := Some ''Austin'',
                phone := Some ''5550100'' \<rparr>"

text \<open>A click on a paid campaign, and a paid click without a source.\<close>

definition ex_google :: NormRow where
  "ex_google =
     blankRow\<lparr> rowId := 3, utmSource := Some ''google'', utmMedium := Some ''cpc'',
                utmCampaign := Some ''spring'' \<rparr>"

definition ex_paid_nosource :: NormRow where
  "ex_paid_nosource = blankRow\<lparr> rowId := 4, utmMedium := Some ''CPC'' \<rparr>"

definition ex_lead :: StitchedLead where
  "ex_lead =
     \<lparr> lead_id = 1, lead_accountId = 1, lead_ulid = ''01J1'', leadCreatedAt = 0,
       lead_name = Some ''Ann Lee'', lead_phone = Some ''5550100'', lead_email = None,
       lead_location = Some ''Austin'', revenue = 0, lead_confidence = 1,
       finalChannel = None, finalSource = None, finalMedium = None, finalCampaign = None,
       firstTouchSource = None, lastTouchSource = None, paidLastSource = None \<rparr>"

text \<open>A usage counter of account 1 for the month of \<open>ex_env\<close>, with the given count.\<close>

definition ex_counter :: "int \<Rightarrow> UsageCounter" where
  "ex_counter n = \<lparr> usage_accountId = 1, periodStart = 0, periodEnd = 30 * day, stitchedCount = n \<rparr>"

text \<open>
  The counter the registration route creates for an account registered on the fifth day
  of the month: its period ends on the same day of the next month.
\<close>

definition ex_counter_registered :: UsageCounter where
  "ex_counter_registered =
     \<lparr> usage_accountId = 1, periodStart = 5 * day, periodEnd = 36 * day, stitchedCount = 0 \<rparr>"

definition emptyResult :: MatchResult where
  "emptyResult = \<lparr> stitchedNew = 0, linksCreated = 0, errors = [] \<rparr>"

text \<open>One lead, no event, and a counter with the given count.\<close>

definition ex_db :: "int \<Rightarrow> db" where
  "ex_db n =
     \<lparr> normalizedRows = [], stitchedLeads = [ex_lead], stitchedLeadsSeq = 1, stitchLinks = [],
       auditTrail = [], usageCounters = [ex_counter n] \<rparr>"

text \<open>No lead, the given events without any matching key, and the given counters.\<close>

definition ex_batch :: "NormRow list \<Rightarrow> UsageCounter list \<Rightarrow> db" where
  "ex_batch rows counters =
     \<lparr> normalizedRows = rows, stitchedLeads = [], stitchedLeadsSeq = 0, stitchLinks = [],
       auditTrail = [], usageCounters = counters \<rparr>"

text \<open>One lead with one linked event.\<close>

definition ex_linked :: "NormRow \<Rightarrow> db" where
  "ex_linked row =
     \<lparr> normalizedRows = [row], stitchedLeads = [ex_lead], stitchedLeadsSeq = 1,
       stitchLinks = [\<lparr> link_accountId = 1, link_stitchId = 1, normalizedRowId = rowId row,
                        matchPass = ''NEW'', link_keys = [], link_windowDays = 0,
                        link_reason = ''New lead created'' \<rparr>],
       auditTrail = [], usageCounters = [ex_counter 1] \<rparr>"

text \<open>
  A policy document with sequences where the maps of windows and weights belong, and
  the document of the default policy \<^verbatim>\<open>dental_equal_weight\<close> with an unknown key in front.
\<close>

definition ex_doc_seq :: "string + yaml" where
  "ex_doc_seq =
     Inr (YMap [(''name'', YStr ''Dental''), (''attribution_mode'', YStr ''equal_weight''),
                (''windows'', YSeq [YNum 14]), (''weights'', YSeq [YNum 1])])"

text \<open>A policy document whose entry for the windows is a number.\<close>

definition ex_doc_num :: "string + yaml" where
  "ex_doc_num =
     Inr (YMap [(''name'', YStr ''Dental''), (''attribution_mode'', YStr ''equal_weight''),
                (''windows'', YNum 14), (''weights'', YMap [(''phone_exact'', YNum 1)])])"

definition ex_doc_fields :: "(string \<times> yaml) list" where
  "ex_doc_fields =
     [(''name'', YStr ''Dental Equal Weight''), (''attribution_mode'', YStr ''equal_weight''),
      (''windows'', YMap [(''phone_exact'', YNum 14), (''email_exact'', YNum 14),
                          (''click_chain'', YNum 3), (''fuzzy_match'', YNum 1)]),
      (''weights'', YMap [(''phone_exact'', YNum 1), (''email_exact'', YNum 1),
                          (''click_chain'', YNum 0.8), (''fuzzy_match'', YNum 0.4)])]"

section \<open>Properties\<close>

subsection \<open>Unfolding the model on sample data\<close>

lemmas string_defs = truthy_def orElse_def toLowerCase_def toLowerChar_def isSpace_def trim_def
  showInt_def showNat.simps

lemmas sample_defs = ex_policy_def ex_policy_equal_def ex_policy_last_def day_def ex_env_def
  ex_env85_def ex_env_fault_def blankRow_def ex_row1_def ex_row2_def ex_row3_def ex_call29_def
  ex_call31_def ex_call8h_def ex_policy_third_def ex_form_def ex_google_def ex_paid_nosource_def
  ex_lead_def ex_counter_def ex_counter_registered_def emptyResult_def ex_db_def ex_batch_def
  ex_linked_def

lemmas double_defs = bits.simps roundHalfEven_def exponentOf_def divDouble_def roundToDouble_def
  isWithinWindow_def

lemmas attribution_defs = linkedRowsOf_def isPaidMedium_def finalTriple_def channelOf_def
  computeAttribution_def setAttribution_def recomputeAttribution_def

lemmas ledger_defs = faultAt_def currentUsage_def limit_def checkUsageLimit_def
  createNewStitch_def bumpUsage_def incrementUsage_def passOr_def keysOr_def reasonOr_def
  linkRowToStitch_def linkAndRecompute_def tryBody_def errorMsg_def processRow_def
  processRows_def selectRows_def runMatch_def

subsection \<open>Rounding in the window test\<close>

text \<open>
  Rounding: the binary length brackets a number between two powers of two, and the
  rounded quotient lies between the whole quotient and any whole upper bound.
\<close>

lemma bits_lower: "0 < n \<Longrightarrow> 2 ^ (bits n - 1) \<le> n"
proof (induction n rule: bits.induct)
  case (1 n)
  show ?case
  proof (cases "n div 2 = 0")
    case True
    with 1(2) have "n = 1" by (cases n) auto
    then show ?thesis by (simp add: bits.simps)
  next
    case False
    then have pos: "0 < n div 2" by simp
    with 1 have ih: "2 ^ (bits (n div 2) - 1) \<le> n div 2" by simp
    have b: "bits n = Suc (bits (n div 2))" using 1(2) by (subst bits.simps) simp
    have "0 < bits (n div 2)" using pos by (subst bits.simps) simp
    then have "2 ^ (bits n - 1) = 2 * 2 ^ (bits (n div 2) - 1)"
      unfolding b by (cases "bits (n div 2)") simp_all
    also have "\<dots> \<le> 2 * (n div 2)" using ih by simp
    also have "\<dots> \<le> n" by simp
    finally show ?thesis .
  qed
qed

lemma bits_upper: "n < 2 ^ bits n"
proof (induction n rule: bits.induct)
  case (1 n)
  show ?case
  proof (cases "n = 0")
    case True
    then show ?thesis by simp
  next
    case False
    with 1 have ih: "n div 2 < 2 ^ bits (n div 2)" by simp
    have b: "bits n = Suc (bits (n div 2))" using False by (subst bits.simps) simp
    from ih have "n < 2 * 2 ^ bits (n div 2)" by linarith
    then show ?thesis unfolding b by simp
  qed
qed

lemma bits_le: "n < 2 ^ m \<Longrightarrow> bits n \<le> m"
proof (rule ccontr)
  assume n: "n < 2 ^ m" and "\<not> bits n \<le> m"
  then have m: "m \<le> bits n - 1" and pos: "0 < n"
    by (auto simp: bits.simps [of n] split: if_splits)
  have "(2::nat) ^ m \<le> 2 ^ (bits n - 1)" using m by (simp add: power_increasing)
  also have "\<dots> \<le> n" using pos by (rule bits_lower)
  finally show False using n by simp
qed

lemma bits_ge: "2 ^ m \<le> n \<Longrightarrow> m < bits n"
proof (rule ccontr)
  assume n: "2 ^ m \<le> n" and "\<not> m < bits n"
  then have "bits n \<le> m" by simp
  then have "(2::nat) ^ bits n \<le> 2 ^ m" by (simp add: power_increasing)
  with bits_upper [of n] n show False by simp
qed

lemma roundHalfEven_ge_div: "a div b \<le> roundHalfEven a b"
  by (simp add: roundHalfEven_def Let_def)

lemma roundHalfEven_le: "0 < b \<Longrightarrow> a \<le> c * b \<Longrightarrow> roundHalfEven a b \<le> c"
proof -
  assume b: "0 < b" and a: "a \<le> c * b"
  then have q: "a div b \<le> c" by (metis div_le_mono div_mult_self_is_m)
  show ?thesis
  proof (cases "a div b = c")
    case True
    then have "c * b \<le> a" by (metis div_times_less_eq_dividend)
    with a have "a = c * b" by simp
    then have "a mod b = 0" by simp
    with True b show ?thesis by (simp add: roundHalfEven_def Let_def)
  next
    case False
    with q have "a div b < c" by simp
    then show ?thesis by (simp add: roundHalfEven_def Let_def)
  qed
qed

lemma roundToDouble_small: "n < 2 ^ 53 \<Longrightarrow> roundToDouble n = n"
  using bits_le [of n 53] by (simp add: roundToDouble_def Let_def)

lemma roundToDouble_large:
  assumes "2 ^ 53 \<le> n"
  shows "2 ^ 53 \<le> roundToDouble n"
proof -
  from assms have b: "53 < bits n" by (rule bits_ge)
  define k where "k = bits n - 53"
  have k: "0 < k" "bits n - 1 = 52 + k" using b by (simp_all add: k_def)
  have pos: "0 < n" using assms by (simp add: order.strict_trans2 [OF _ assms])
  have "(2::nat) ^ 52 * 2 ^ k \<le> n" using bits_lower [OF pos] k(2) by (simp add: power_add)
  then have "2 ^ 52 \<le> n div 2 ^ k"
    by (simp add: less_eq_div_iff_mult_less_eq)
  also have "\<dots> \<le> roundHalfEven n (2 ^ k)" by (rule roundHalfEven_ge_div)
  finally have r: "2 ^ 52 \<le> roundHalfEven n (2 ^ k)" .
  have two: "(2::nat) \<le> 2 ^ k"
    using k(1) by (cases k) simp_all
  have "(2::nat) ^ 53 = 2 ^ 52 * 2" by simp
  also have "\<dots> \<le> roundHalfEven n (2 ^ k) * 2 ^ k"
    using r two by (rule mult_le_mono)
  finally have "2 ^ 53 \<le> roundHalfEven n (2 ^ k) * 2 ^ k" .
  moreover have "roundToDouble n = roundHalfEven n (2 ^ k) * 2 ^ k"
    using b by (simp add: roundToDouble_def Let_def k_def nat_diff_distrib')
  ultimately show ?thesis by simp
qed

lemma exponentOf_le:
  assumes "p < q * 2 ^ Suc m"
  shows "exponentOf p q \<le> int m"
proof -
  have "q \<le> 2 ^ bits q" using bits_upper [of q] by (rule less_imp_le)
  then have "q * 2 ^ Suc m \<le> 2 ^ bits q * 2 ^ Suc m" by (rule mult_le_mono1)
  also have "\<dots> = 2 ^ (bits q + Suc m)" by (rule power_add [symmetric])
  finally have "p < 2 ^ (bits q + Suc m)" using assms by (rule less_le_trans [rotated])
  then have b: "bits p \<le> bits q + Suc m" by (rule bits_le)
  show ?thesis
  proof (cases "bits p = bits q + Suc m")
    case True
    then have d: "int (bits p) - int (bits q) = int (Suc m)" by simp
    have n: "nat (int (Suc m)) = Suc m" by (rule nat_int)
    have "\<not> q * 2 ^ Suc m \<le> p" using assms by simp
    then show ?thesis unfolding exponentOf_def Let_def d n by simp
  next
    case False
    with b have "int (bits p) - int (bits q) \<le> int m" by simp
    then show ?thesis by (simp add: exponentOf_def Let_def)
  qed
qed

lemma exponentOf_ge:
  assumes q: "0 < q" and low: "q * 2 ^ m \<le> p"
  shows "int m \<le> exponentOf p q"
proof -
  have "2 ^ (bits q - 1 + m) = 2 ^ (bits q - 1) * (2::nat) ^ m" by (rule power_add)
  also have "\<dots> \<le> q * 2 ^ m" using bits_lower [OF q] by (rule mult_le_mono1)
  also note low
  finally have "2 ^ (bits q - 1 + m) \<le> p" .
  then have "bits q - 1 + m < bits p" by (rule bits_ge)
  moreover have "0 < bits q" using q by (simp add: bits.simps [of q])
  ultimately have b: "bits q + m \<le> bits p" by simp
  show ?thesis
  proof (cases "bits p = bits q + m")
    case True
    then have "int (bits p) - int (bits q) = int m" by simp
    then show ?thesis using low by (simp add: exponentOf_def Let_def)
  next
    case False
    with b have "int m + 1 \<le> int (bits p) - int (bits q)" by simp
    then show ?thesis by (simp add: exponentOf_def Let_def)
  qed
qed

lemma exponentOf_low:
  assumes p: "0 < p" and e: "0 \<le> exponentOf p q"
  shows "q * 2 ^ nat (exponentOf p q) \<le> p"
proof -
  define d where "d = int (bits p) - int (bits q)"
  show ?thesis
  proof (cases "0 \<le> d \<and> q * 2 ^ nat d \<le> p")
    case True
    then have "exponentOf p q = d" by (simp add: exponentOf_def Let_def d_def)
    with True show ?thesis by simp
  next
    case False
    have ed: "exponentOf p q = d \<or> exponentOf p q = d - 1"
      by (simp add: exponentOf_def Let_def d_def)
    have "exponentOf p q = d - 1"
    proof (cases "0 \<le> d")
      case True
      with False show ?thesis by (simp add: exponentOf_def Let_def d_def)
    next
      case False
      with ed e show ?thesis by auto
    qed
    with e have d1: "1 \<le> d" and ee: "nat (exponentOf p q) = nat d - 1" by simp_all
    from d1 have bp: "bits p = bits q + nat d" by (simp add: d_def)
    have "q * 2 ^ (nat d - 1) \<le> 2 ^ bits q * 2 ^ (nat d - 1)"
      using bits_upper [of q] by simp
    also have "\<dots> = 2 ^ (bits p - 1)" using d1 by (simp add: bp power_add [symmetric])
    also have "\<dots> \<le> p" using bits_lower [OF p] .
    finally show ?thesis by (simp add: ee)
  qed
qed

lemma divDouble_fine:
  assumes "p \<noteq> 0" and "exponentOf p q \<le> 52"
  shows "divDouble p q
           = real (roundHalfEven (p * 2 ^ nat (52 - exponentOf p q)) q) / 2 ^ nat (52 - exponentOf p q)"
  using assms by (simp add: divDouble_def Let_def)

lemma divDouble_ge_pow:
  assumes q: "0 < q" and e: "0 \<le> exponentOf p q" and low: "q * 2 ^ nat (exponentOf p q) \<le> p"
  shows "2 ^ nat (exponentOf p q) \<le> divDouble p q"
proof -
  define e where "e = nat (exponentOf p q)"
  have ee: "exponentOf p q = int e" using e by (simp add: e_def)
  have low': "q * 2 ^ e \<le> p" using low by (simp add: e_def)
  have "0 < q * 2 ^ e" using q by simp
  with low' have p: "p \<noteq> 0" by linarith
  show ?thesis
  proof (cases "e \<le> 52")
    case True
    define j where "j = 52 - e"
    have j: "nat (52 - int e) = j" using True by (simp add: j_def)
    have "q * 2 ^ e * 2 ^ j \<le> p * 2 ^ j" using low' by simp
    then have "2 ^ e * 2 ^ j \<le> (p * 2 ^ j) div q"
      using q by (simp add: less_eq_div_iff_mult_less_eq mult.commute mult.left_commute)
    also have "\<dots> \<le> roundHalfEven (p * 2 ^ j) q" by (rule roundHalfEven_ge_div)
    finally have "real (2 ^ e * 2 ^ j) \<le> real (roundHalfEven (p * 2 ^ j) q)"
      by (rule iffD2 [OF of_nat_le_iff])
    then have "2 ^ e \<le> real (roundHalfEven (p * 2 ^ j) q) / 2 ^ j"
      by (simp add: pos_le_divide_eq)
    moreover have "divDouble p q = real (roundHalfEven (p * 2 ^ j) q) / 2 ^ j"
      using p True by (simp add: divDouble_def Let_def ee j)
    ultimately show ?thesis by (simp add: e_def)
  next
    case False
    define k where "k = e - 52"
    have k: "nat (int e - 52) = k" "e = 52 + k" "\<not> int e - 52 \<le> 0" using False by (simp_all add: k_def)
    have "q * 2 ^ k * 2 ^ 52 \<le> p" using low' unfolding k(2) by (simp add: power_add mult.assoc mult.left_commute)
    then have "2 ^ 52 \<le> p div (q * 2 ^ k)"
      using q by (simp add: less_eq_div_iff_mult_less_eq mult.commute)
    also have "\<dots> \<le> roundHalfEven p (q * 2 ^ k)" by (rule roundHalfEven_ge_div)
    finally have "2 ^ 52 * 2 ^ k \<le> roundHalfEven p (q * 2 ^ k) * 2 ^ k" by simp
    then have "real (2 ^ 52 * 2 ^ k) \<le> real (roundHalfEven p (q * 2 ^ k) * 2 ^ k)"
      by (rule iffD2 [OF of_nat_le_iff])
    then have "2 ^ e \<le> real (roundHalfEven p (q * 2 ^ k)) * 2 ^ k"
      unfolding k(2) by (simp add: power_add)
    moreover have "divDouble p q = real (roundHalfEven p (q * 2 ^ k)) * 2 ^ k"
      using p k(3) by (simp add: divDouble_def Let_def ee k(1))
    ultimately show ?thesis by (simp add: e_def)
  qed
qed

lemma divDouble_le_whole:
  assumes q: "0 < q" and le: "p \<le> k * q" and e: "exponentOf p q \<le> 52"
  shows "divDouble p q \<le> real k"
proof (cases "p = 0")
  case True
  then show ?thesis by (simp add: divDouble_def)
next
  case False
  define j where "j = nat (52 - exponentOf p q)"
  have "p * 2 ^ j \<le> (k * q) * 2 ^ j" using le by (rule mult_le_mono1)
  then have "p * 2 ^ j \<le> (k * 2 ^ j) * q" by (simp add: mult.assoc mult.left_commute mult.commute)
  with q have "roundHalfEven (p * 2 ^ j) q \<le> k * 2 ^ j" by (rule roundHalfEven_le)
  then have "real (roundHalfEven (p * 2 ^ j) q) \<le> real (k * 2 ^ j)"
    by (rule iffD2 [OF of_nat_le_iff])
  then have "real (roundHalfEven (p * 2 ^ j) q) / 2 ^ j \<le> real k"
    by (simp add: pos_divide_le_eq)
  then show ?thesis unfolding divDouble_fine [OF False e] j_def .
qed

lemma divDouble_gt_whole:
  assumes q: "0 < q" and gt: "k * q < p" and e: "exponentOf p q \<le> 52"
    and j: "q \<le> 2 ^ nat (52 - exponentOf p q)"
  shows "real k < divDouble p q"
proof -
  from gt have False: "p \<noteq> 0" by auto
  define j where "j = nat (52 - exponentOf p q)"
  have qj: "q \<le> 2 ^ j" using assms(4) by (simp add: j_def)
  from gt have "Suc (k * q) \<le> p" by simp
  then have "Suc (k * q) * 2 ^ j \<le> p * 2 ^ j" by (rule mult_le_mono1)
  moreover have "(k * 2 ^ j + 1) * q \<le> Suc (k * q) * 2 ^ j"
    using qj by (simp add: algebra_simps)
  ultimately have "(k * 2 ^ j + 1) * q \<le> p * 2 ^ j" by (rule order_trans [rotated])
  then have "k * 2 ^ j + 1 \<le> (p * 2 ^ j) div q"
    using q by (simp add: less_eq_div_iff_mult_less_eq)
  also have "\<dots> \<le> roundHalfEven (p * 2 ^ j) q" by (rule roundHalfEven_ge_div)
  finally have "k * 2 ^ j < roundHalfEven (p * 2 ^ j) q" by simp
  then have "real (k * 2 ^ j) < real (roundHalfEven (p * 2 ^ j) q)"
    by (rule iffD2 [OF of_nat_less_iff])
  then have "real k < real (roundHalfEven (p * 2 ^ j) q) / 2 ^ j"
    by (simp add: pos_less_divide_eq)
  then show ?thesis unfolding divDouble_fine [OF False e] j_def .
qed

text \<open>
  For a divisor between \<open>2\<^sup>2\<^sup>6\<close> and \<open>2\<^sup>2\<^sup>7\<close>, as the milliseconds of a day are, and a
  whole number \<open>k\<close> below \<open>2\<^sup>2\<^sup>6\<close>, the rounded quotient of the rounded dividend is at most
  \<open>k\<close> exactly when the dividend is at most \<open>k\<close> times the divisor: the doubles next to
  \<open>k\<close> are nearer to it than the quotients next to it.
\<close>

lemma window_exact:
  fixes q k n :: nat
  assumes lo: "2 ^ 26 \<le> q" and hi: "q < 2 ^ 27" and k: "k < 2 ^ 26"
  shows "divDouble (roundToDouble n) q \<le> real k \<longleftrightarrow> n \<le> k * q"
proof -
  have q: "0 < q" using lo by (rule less_le_trans [rotated]) simp
  have big: "2 ^ 26 * q < 2 ^ 53"
  proof -
    have "(2::nat) ^ 26 * q < 2 ^ 26 * 2 ^ 27" using hi by simp
    also have "\<dots> = 2 ^ 53" by (simp only: power_add [symmetric]) simp
    finally show ?thesis .
  qed
  have kq: "k * q < 2 ^ 26 * q" using k q by simp
  show ?thesis
  proof (cases "n < 2 ^ 26 * q")
    case True
    from this big have "n < 2 ^ 53" by (rule less_trans)
    then have r: "roundToDouble n = n" by (rule roundToDouble_small)
    have "n < q * 2 ^ Suc 25" using True by (simp add: mult.commute)
    then have e: "exponentOf n q \<le> 25" using exponentOf_le [of n q 25] by simp
    then have e52: "exponentOf n q \<le> 52" by simp
    have "27 \<le> nat (52 - exponentOf n q)" using e by simp
    then have "(2::nat) ^ 27 \<le> 2 ^ nat (52 - exponentOf n q)"
      by (rule power_increasing) simp
    with hi have qj: "q \<le> 2 ^ nat (52 - exponentOf n q)" by linarith
    show ?thesis
    proof (cases "n \<le> k * q")
      case True
      with q have "divDouble n q \<le> real k" using e52 by (rule divDouble_le_whole)
      with True show ?thesis unfolding r by simp
    next
      case False
      then have "k * q < n" by simp
      with q have "real k < divDouble n q" using e52 qj by (rule divDouble_gt_whole)
      with False show ?thesis unfolding r by simp
    qed
  next
    case False
    then have n: "2 ^ 26 * q \<le> n" by simp
    have n': "2 ^ 26 * q \<le> roundToDouble n"
    proof (cases "n < 2 ^ 53")
      case True
      then have "roundToDouble n = n" by (rule roundToDouble_small)
      with n show ?thesis by simp
    next
      case False
      then have "2 ^ 53 \<le> n" by simp
      then have "2 ^ 53 \<le> roundToDouble n" by (rule roundToDouble_large)
      with big show ?thesis by linarith
    qed
    then have "q * 2 ^ 26 \<le> roundToDouble n" by (simp add: mult.commute)
    with q have e: "int 26 \<le> exponentOf (roundToDouble n) q" by (rule exponentOf_ge)
    then have e0: "0 \<le> exponentOf (roundToDouble n) q" by simp
    have p: "0 < roundToDouble n" using n' q by (simp add: less_le_trans [rotated])
    have "q * 2 ^ nat (exponentOf (roundToDouble n) q) \<le> roundToDouble n"
      using p e0 by (rule exponentOf_low)
    with q e0 have "2 ^ nat (exponentOf (roundToDouble n) q) \<le> divDouble (roundToDouble n) q"
      by (rule divDouble_ge_pow)
    moreover have "26 \<le> nat (exponentOf (roundToDouble n) q)" using e by simp
    then have "(2::real) ^ 26 \<le> 2 ^ nat (exponentOf (roundToDouble n) q)"
      by (rule power_increasing) simp
    moreover have "real k < 2 ^ 26" using k by (metis of_nat_less_iff of_nat_numeral of_nat_power)
    ultimately have "real k < divDouble (roundToDouble n) q" by linarith
    moreover have "k * q < n" using kq n by linarith
    ultimately show ?thesis by simp
  qed
qed

lemma window_whole_days:
  assumes "k * 86400000 < (2::nat) ^ 52"
  shows "divDouble (roundToDouble n) 86400000 \<le> real k \<longleftrightarrow> n \<le> k * 86400000"
proof (rule window_exact)
  show "(2::nat) ^ 26 \<le> 86400000" by simp
  show "(86400000::nat) < 2 ^ 27" by simp
  show "k < 2 ^ 26" using assms by simp
qed

text \<open>
  So under a window of a whole number of days the window test compares the distance of
  the two times with the window exactly.
\<close>

lemma isWithinWindow_whole:
  assumes "k * 86400000 < (2::nat) ^ 52"
  shows "isWithinWindow t1 t2 (real k) \<longleftrightarrow> \<bar>t1 - t2\<bar> \<le> int k * 86400000"
proof -
  have "isWithinWindow t1 t2 (real k) \<longleftrightarrow> divDouble (roundToDouble (nat \<bar>t1 - t2\<bar>)) 86400000 \<le> real k"
    by (simp add: isWithinWindow_def Let_def)
  also have "\<dots> \<longleftrightarrow> nat \<bar>t1 - t2\<bar> \<le> k * 86400000"
    using assms by (rule window_whole_days)
  also have "\<dots> \<longleftrightarrow> \<bar>t1 - t2\<bar> \<le> int k * 86400000"
    by (simp add: nat_le_iff)
  finally show ?thesis .
qed

lemma isWithinWindow_numeral:
  "numeral w * 86400000 < (2::nat) ^ 52 \<Longrightarrow>
   isWithinWindow t1 t2 (numeral w) \<longleftrightarrow> \<bar>t1 - t2\<bar> \<le> numeral w * 86400000"
  using isWithinWindow_whole [of "numeral w" t1 t2] by simp

lemma isWithinWindow_one:
  "isWithinWindow t1 t2 1 \<longleftrightarrow> \<bar>t1 - t2\<bar> \<le> 86400000"
  using isWithinWindow_whole [of 1 t1 t2] by simp

subsection \<open>Candidate generator\<close>

lemmas matcher_defs = generateMatchingKeys_def isWithinWindow_numeral isWithinWindow_one
  calculateSimilarity_def calculateHammingDistance_def passP1_def passP2_def passP3_def
  passP4_def fuzzyAccepts_def findMatchingStitches_def sortByWeight_def pickBestCandidate_def

lemma keys_phone: "truthy (phone row) \<Longrightarrow> generateMatchingKeys row ''phone'' = phone row"
  by (auto simp: generateMatchingKeys_def Let_def truthy_def split: option.splits)

lemma pass_P1: "c \<in> set (passP1 row policy acct d) \<Longrightarrow> pass c = ''P1''"
  by (auto simp: passP1_def Let_def split: if_splits)

lemma pass_P2: "c \<in> set (passP2 row policy acct d) \<Longrightarrow> pass c = ''P2''"
  by (auto simp: passP2_def Let_def split: if_splits)

lemma pass_P3: "c \<in> set (passP3 row policy acct d) \<Longrightarrow> pass c = ''P3''"
  by (auto simp: passP3_def Let_def split: if_splits)

lemma pass_P4: "c \<in> set (passP4 e row policy acct d) \<Longrightarrow> pass c = ''P4''"
  by (auto simp: passP4_def Let_def split: if_splits)

lemma P1_candidates_of_find:
  "{c \<in> set (findMatchingStitches e row policy acct d). pass c = ''P1''} = set (passP1 row policy acct d)"
  by (auto simp: findMatchingStitches_def dest: pass_P1 pass_P2 pass_P3 pass_P4)

lemma P1_stitchIds:
  assumes t: "truthy (phone row)"
  shows "stitchId ` set (passP1 row policy acct d) =
   lead_id ` {l \<in> set (stitchedLeads d). lead_accountId l = acct \<and> lead_phone l = phone row \<and>
        isWithinWindow (occurredAt row) (leadCreatedAt l) (phone_exact (windows policy))}"
proof -
  have k: "generateMatchingKeys row ''phone'' = phone row" using t by (rule keys_phone)
  obtain p where p: "phone row = Some p" using t by (auto simp: truthy_def split: option.splits)
  have "stitchId ` set (passP1 row policy acct d) =
        lead_id ` set (filter (\<lambda>m. isWithinWindow (occurredAt row) (leadCreatedAt m) (phone_exact (windows policy)))
           (filter (\<lambda>l. lead_accountId l = acct \<and> lead_phone l = phone row) (stitchedLeads d)))"
    unfolding passP1_def Let_def k by (simp add: p image_image del: set_filter)
  also have "\<dots> = lead_id ` {l \<in> set (stitchedLeads d). lead_accountId l = acct \<and> lead_phone l = phone row \<and>
        isWithinWindow (occurredAt row) (leadCreatedAt l) (phone_exact (windows policy))}"
    by (rule arg_cong [where f = "image lead_id"]) auto
  finally show ?thesis .
qed

text \<open>
  Claim C7 as stated fails. The window test divides the distance of the two times by the
  milliseconds of a day in doubles, and the quotient is rounded. A call eight hours after
  the creation of the lead, under a window of \<^verbatim>\<open>0.3333333333333333\<close> days, gets the P1
  candidate: the quotient is rounded to the double of the window, although eight hours,
  a third of a day, exceed the window, which is below a third.
\<close>

theorem p1_candidate_window_counterexample:
  "findMatchingStitches ex_env ex_call8h ex_policy_third 1 (ex_db 0)
     = [\<lparr> stitchId = 1, weight = 1, pass = ''P1'', matchedOn = [''phone''],
          reason = ''Phone exact match: 5550100'', confidence = 0.9 \<rparr>]
   \<and> lead_id ex_lead = 1
   \<and> \<not> real_of_int \<bar>occurredAt ex_call8h - leadCreatedAt ex_lead\<bar>
         \<le> phone_exact (windows ex_policy_third) * 86400000"
proof -
  have w: "isWithinWindow 28800000 0 (6004799503160661 / 18014398509481984)"
    by (simp add: double_defs Let_def)
  have a: "findMatchingStitches ex_env ex_call8h ex_policy_third 1 (ex_db 0)
     = [\<lparr> stitchId = 1, weight = 1, pass = ''P1'', matchedOn = [''phone''],
          reason = ''Phone exact match: 5550100'', confidence = 0.9 \<rparr>]"
    by (simp add: sample_defs string_defs matcher_defs Let_def w)
  have b: "lead_id ex_lead = 1" by (simp add: ex_lead_def)
  have c: "\<not> real_of_int \<bar>occurredAt ex_call8h - leadCreatedAt ex_lead\<bar>
         \<le> phone_exact (windows ex_policy_third) * 86400000"
    by (simp add: sample_defs)
  from a b c show ?thesis by (intro conjI)
qed

text \<open>
  Claim C7, amended. For an event with a non-empty phone and a lead of the account with
  the same phone value, \<^verbatim>\<open>findMatchingStitches\<close> emits a P1 candidate for that lead if and
  only if the distance between the time of the event and the creation time of the lead,
  divided in doubles by the milliseconds of a day, is at most \<^verbatim>\<open>windows.phone_exact\<close>.
  When the window is a whole number \<open>k\<close> of days, of less than \<open>2\<^sup>5\<^sup>2\<close> milliseconds, that is
  the case exactly when the distance is at most \<open>k\<close> days; in particular an event 31 days
  after the creation of the lead gets no P1 candidate under a window of 30 days. Times
  are in milliseconds, a day being 86400000 of them, and the serial keys of the leads
  are distinct.
\<close>

theorem p1_candidate_window_amended:
  assumes "truthy (phone row)" and "distinct (map lead_id (stitchedLeads d))"
    and "l \<in> set (stitchedLeads d)" and "lead_accountId l = acct" and "lead_phone l = phone row"
  shows "((\<exists>c \<in> set (findMatchingStitches e row policy acct d). pass c = ''P1'' \<and> stitchId c = lead_id l)
          \<longleftrightarrow> divDouble (roundToDouble (nat \<bar>occurredAt row - leadCreatedAt l\<bar>)) 86400000
                \<le> phone_exact (windows policy))
      \<and> (phone_exact (windows policy) = real k \<and> k * 86400000 < 2 ^ 52 \<longrightarrow>
          ((\<exists>c \<in> set (findMatchingStitches e row policy acct d). pass c = ''P1'' \<and> stitchId c = lead_id l)
           \<longleftrightarrow> \<bar>occurredAt row - leadCreatedAt l\<bar> \<le> int k * 86400000))
      \<and> (occurredAt row = leadCreatedAt l + 31 * 86400000 \<and> phone_exact (windows policy) = 30 \<longrightarrow>
          \<not> (\<exists>c \<in> set (findMatchingStitches e row policy acct d). pass c = ''P1'' \<and> stitchId c = lead_id l))"
proof -
  let ?C = "\<exists>c \<in> set (findMatchingStitches e row policy acct d). pass c = ''P1'' \<and> stitchId c = lead_id l"
  let ?n = "nat \<bar>occurredAt row - leadCreatedAt l\<bar>"
  let ?W = "isWithinWindow (occurredAt row) (leadCreatedAt l) (phone_exact (windows policy))"
  have inj: "inj_on lead_id (set (stitchedLeads d))"
    using assms(2) by (simp add: distinct_map)
  have "?C \<longleftrightarrow> lead_id l \<in> stitchId ` set (passP1 row policy acct d)"
    unfolding P1_candidates_of_find [of e row policy acct d, symmetric] by (auto simp: image_iff)
  also have "\<dots> \<longleftrightarrow> ?W"
    unfolding P1_stitchIds [OF assms(1)]
    using assms(3-5) inj by (auto simp: inj_on_def)
  also have "?W \<longleftrightarrow> divDouble (roundToDouble ?n) 86400000 \<le> phone_exact (windows policy)"
    by (simp add: isWithinWindow_def Let_def)
  finally have main: "?C \<longleftrightarrow> divDouble (roundToDouble ?n) 86400000 \<le> phone_exact (windows policy)" .
  have whole: "?C \<longleftrightarrow> \<bar>occurredAt row - leadCreatedAt l\<bar> \<le> int k * 86400000"
    if w: "phone_exact (windows policy) = real k" and k: "k * 86400000 < 2 ^ 52" for k
  proof -
    have "?C \<longleftrightarrow> ?n \<le> k * 86400000"
      unfolding main w using k by (rule window_whole_days)
    also have "\<dots> \<longleftrightarrow> \<bar>occurredAt row - leadCreatedAt l\<bar> \<le> int k * 86400000"
      by (simp add: nat_le_iff)
    finally show ?thesis .
  qed
  have late: "\<not> ?C"
    if "occurredAt row = leadCreatedAt l + 31 * 86400000 \<and> phone_exact (windows policy) = 30"
  proof -
    from that have w: "phone_exact (windows policy) = real 30" by simp
    have k: "(30::nat) * 86400000 < 2 ^ 52" by simp
    from whole [OF w k] that show ?thesis by simp
  qed
  from main whole late show ?thesis by blast
qed

text \<open>
  The lead of the sample database and two calls from its phone, under the window of 30
  days: the call 29 days after its creation gets the P1 candidate, the call 31 days after
  gets none.
\<close>

theorem p1_candidate_window_amended_witness:
  "truthy (phone ex_call29) \<and> distinct (map lead_id (stitchedLeads (ex_db 0)))
   \<and> ex_lead \<in> set (stitchedLeads (ex_db 0)) \<and> lead_accountId ex_lead = 1
   \<and> lead_phone ex_lead = phone ex_call29 \<and> lead_phone ex_lead = phone ex_call31
   \<and> phone_exact (windows ex_policy) = real 30 \<and> (30::nat) * 86400000 < 2 ^ 52
   \<and> \<bar>occurredAt ex_call29 - leadCreatedAt ex_lead\<bar> \<le> int 30 * 86400000
   \<and> (\<exists>c \<in> set (findMatchingStitches ex_env ex_call29 ex_policy 1 (ex_db 0)).
         pass c = ''P1'' \<and> stitchId c = lead_id ex_lead)
   \<and> divDouble (roundToDouble (nat \<bar>occurredAt ex_call29 - leadCreatedAt ex_lead\<bar>)) 86400000
        \<le> phone_exact (windows ex_policy)
   \<and> occurredAt ex_call31 = leadCreatedAt ex_lead + 31 * 86400000
   \<and> filter (\<lambda>c. pass c = ''P1'' \<and> stitchId c = lead_id ex_lead)
        (findMatchingStitches ex_env ex_call31 ex_policy 1 (ex_db 0)) = []"
proof -
  have h1: "truthy (phone ex_call29)" and h1': "truthy (phone ex_call31)"
    by (simp_all add: sample_defs truthy_def)
  have h2: "distinct (map lead_id (stitchedLeads (ex_db 0)))" by (simp add: ex_db_def)
  have h3: "ex_lead \<in> set (stitchedLeads (ex_db 0))" by (simp add: ex_db_def)
  have h4: "lead_accountId ex_lead = 1" by (simp add: ex_lead_def)
  have h5: "lead_phone ex_lead = phone ex_call29" and h5': "lead_phone ex_lead = phone ex_call31"
    by (simp_all add: sample_defs)
  have w: "phone_exact (windows ex_policy) = real 30" by (simp add: ex_policy_def)
  have k: "(30::nat) * 86400000 < 2 ^ 52" by simp
  have w29: "\<bar>occurredAt ex_call29 - leadCreatedAt ex_lead\<bar> \<le> int 30 * 86400000"
    by (simp add: sample_defs)
  note inst = p1_candidate_window_amended [OF h1 h2 h3 h4 h5, of ex_env ex_policy 30]
  note inst' = p1_candidate_window_amended [OF h1' h2 h3 h4 h5', of ex_env ex_policy 30]
  have c29: "\<exists>c \<in> set (findMatchingStitches ex_env ex_call29 ex_policy 1 (ex_db 0)).
         pass c = ''P1'' \<and> stitchId c = lead_id ex_lead"
    by (rule inst [THEN conjunct2, THEN conjunct1, THEN mp, OF conjI [OF w k], THEN iffD2, OF w29])
  have d29: "divDouble (roundToDouble (nat \<bar>occurredAt ex_call29 - leadCreatedAt ex_lead\<bar>)) 86400000
        \<le> phone_exact (windows ex_policy)"
    by (rule inst [THEN conjunct1, THEN iffD1, OF c29])
  have t31: "occurredAt ex_call31 = leadCreatedAt ex_lead + 31 * 86400000"
    by (simp add: sample_defs)
  have s31: "occurredAt ex_call31 = leadCreatedAt ex_lead + 31 * 86400000 \<and>
             phone_exact (windows ex_policy) = 30"
    by (simp add: sample_defs)
  have "\<not> (\<exists>c \<in> set (findMatchingStitches ex_env ex_call31 ex_policy 1 (ex_db 0)).
         pass c = ''P1'' \<and> stitchId c = lead_id ex_lead)"
    by (rule inst' [THEN conjunct2, THEN conjunct2, THEN mp, OF s31])
  then have c31: "filter (\<lambda>c. pass c = ''P1'' \<and> stitchId c = lead_id ex_lead)
        (findMatchingStitches ex_env ex_call31 ex_policy 1 (ex_db 0)) = []"
    by (simp add: filter_empty_conv)
  from h1 h2 h3 h4 h5 h5' w k w29 c29 d29 t31 c31 show ?thesis by (intro conjI)
qed

lemma P4_candidates_of_find:
  "{c \<in> set (findMatchingStitches e row policy acct d). pass c = ''P4''} = set (passP4 e row policy acct d)"
  by (auto simp: findMatchingStitches_def dest: pass_P1 pass_P2 pass_P3 pass_P4)

lemma P4_origin:
  "c \<in> set (passP4 e row policy acct d) \<Longrightarrow>
   \<exists>m \<in> set (stitchedLeads d). stitchId c = lead_id m \<and> fuzzyAccepts e row policy m"
  by (auto simp: passP4_def Let_def split: if_splits)

text \<open>
  Claim C8. Whatever the Jaro-Winkler function returns and however the location and the
  phone compare, \<^verbatim>\<open>findMatchingStitches\<close> emits no P4 candidate for a lead whose name
  has a similarity below 0.88 with the name of the event, compared without regard to case.
\<close>

theorem p4_never_below_threshold:
  assumes "distinct (map lead_id (stitchedLeads d))"
    and "l \<in> set (stitchedLeads d)"
    and "calculateSimilarity e (name row) (lead_name l) < 0.88"
  shows "\<not> (\<exists>c \<in> set (findMatchingStitches e row policy acct d). pass c = ''P4'' \<and> stitchId c = lead_id l)"
proof
  assume "\<exists>c \<in> set (findMatchingStitches e row policy acct d). pass c = ''P4'' \<and> stitchId c = lead_id l"
  then obtain c where c: "c \<in> set (passP4 e row policy acct d)" and sid: "stitchId c = lead_id l"
    using P4_candidates_of_find [of e row policy acct d] by blast
  from P4_origin [OF c] obtain m where m: "m \<in> set (stitchedLeads d)" "stitchId c = lead_id m"
    and acc: "fuzzyAccepts e row policy m" by blast
  have "inj_on lead_id (set (stitchedLeads d))" using assms(1) by (simp add: distinct_map)
  with m assms(2) sid have "m = l" by (auto simp: inj_on_def)
  with acc have "\<not> calculateSimilarity e (name row) (lead_name l) < 0.88"
    by (simp add: fuzzyAccepts_def)
  with assms(3) show False by simp
qed

text \<open>
  A form with the location and the phone of the lead and a name of similarity 0.85: no
  P4 candidate.
\<close>

theorem p4_never_below_threshold_witness:
  "distinct (map lead_id (stitchedLeads (ex_db 0))) \<and> ex_lead \<in> set (stitchedLeads (ex_db 0))
   \<and> calculateSimilarity ex_env85 (name ex_form) (lead_name ex_lead) = 0.85
   \<and> location ex_form = lead_location ex_lead \<and> phone ex_form = lead_phone ex_lead
   \<and> filter (\<lambda>c. pass c = ''P4'' \<and> stitchId c = lead_id ex_lead)
        (findMatchingStitches ex_env85 ex_form ex_policy 1 (ex_db 0)) = []"
proof -
  have h1: "distinct (map lead_id (stitchedLeads (ex_db 0)))" by (simp add: ex_db_def)
  have h2: "ex_lead \<in> set (stitchedLeads (ex_db 0))" by (simp add: ex_db_def)
  have v: "calculateSimilarity ex_env85 (name ex_form) (lead_name ex_lead) = 0.85"
    by (simp add: calculateSimilarity_def sample_defs truthy_def)
  then have h3: "calculateSimilarity ex_env85 (name ex_form) (lead_name ex_lead) < 0.88" by simp
  have same: "location ex_form = lead_location ex_lead \<and> phone ex_form = lead_phone ex_lead"
    by (simp add: sample_defs)
  have "\<not> (\<exists>c \<in> set (findMatchingStitches ex_env85 ex_form ex_policy 1 (ex_db 0)).
           pass c = ''P4'' \<and> stitchId c = lead_id ex_lead)"
    by (rule p4_never_below_threshold [OF h1 h2 h3])
  then have c: "filter (\<lambda>c. pass c = ''P4'' \<and> stitchId c = lead_id ex_lead)
        (findMatchingStitches ex_env85 ex_form ex_policy 1 (ex_db 0)) = []"
    by (simp add: filter_empty_conv)
  from h1 h2 v same c show ?thesis by (intro conjI) simp_all
qed

subsection \<open>Candidate resolver\<close>

lemma applyTieBreakers_hd:
  "applyTieBreakers tbs row cs = Some w \<Longrightarrow> w = cs ! 0"
  by (induction tbs) (auto split: if_splits)

lemma sortByWeight_idem: "sortByWeight (sortByWeight cs) = sortByWeight cs"
  by (simp add: sortByWeight_def sort_key_id_if_sorted)

lemma sortByWeight_small: "length cs \<le> 1 \<Longrightarrow> sortByWeight cs = cs"
  by (cases cs) (auto simp: sortByWeight_def)

lemma pick_fst:
  "fst (pickBestCandidate cs policy row) = (if cs = [] then None else Some (sortByWeight cs ! 0))"
  by (cases cs rule: list.exhaust; cases "tl cs")
     (auto simp: pickBestCandidate_def Let_def sortByWeight_small split: option.splits dest: applyTieBreakers_hd)

lemma pick_snd:
  "snd (pickBestCandidate cs policy row) = sortByWeight cs"
  by (cases cs rule: list.exhaust; cases "tl cs")
     (auto simp: pickBestCandidate_def Let_def sortByWeight_small split: option.splits)

lemma sortByWeight_Nil: "sortByWeight cs = [] \<longleftrightarrow> cs = []"
  by (metis length_sort list.size(3) length_0_conv sortByWeight_def)

text \<open>
  Claim C9. \<^verbatim>\<open>pickBestCandidate\<close> is deterministic. The function of the model gives
  one winner for one input; beyond that, a second call on the array the first call has
  sorted in place returns the same winner, the winner is the head of the candidates in
  stable descending order of weight (none for the empty list), and it is the same under
  every policy and for every event.
\<close>

theorem resolver_deterministic:
  "fst (pickBestCandidate (snd (pickBestCandidate cs policy row)) policy row)
     = fst (pickBestCandidate cs policy row)
   \<and> fst (pickBestCandidate cs policy row)
     = (if cs = [] then None else Some (sortByWeight cs ! 0))
   \<and> fst (pickBestCandidate cs policy row) = fst (pickBestCandidate cs policy' row')"
proof -
  have head: "\<And>p r. fst (pickBestCandidate cs p r)
                 = (if cs = [] then None else Some (sortByWeight cs ! 0))"
    by (rule pick_fst)
  have left: "snd (pickBestCandidate cs policy row) = sortByWeight cs"
    by (rule pick_snd)
  have again: "fst (pickBestCandidate (sortByWeight cs) policy row)
                 = (if cs = [] then None else Some (sortByWeight cs ! 0))"
    unfolding pick_fst [of "sortByWeight cs"] sortByWeight_idem sortByWeight_Nil ..
  show ?thesis
    unfolding left again head by simp
qed

subsection \<open>Attribution recomputation\<close>

lemma orElse_nonempty: "dflt \<noteq> [] \<Longrightarrow> orElse v dflt \<noteq> []"
  by (auto simp: orElse_def split: option.splits)

text \<open>
  Claim C3, on the code. Under \<^verbatim>\<open>equal_weight\<close> the \<^verbatim>\<open>switch\<close> of
  \<^verbatim>\<open>recomputeAttribution\<close> has no case: the final triple keeps its initial empty
  strings for every list of linked events, whereas under \<^verbatim>\<open>last_touch\<close> the final
  source is never empty. For the sample lead with one linked paid click the two modes
  store different triples and different channels.
\<close>

theorem equal_weight_leaves_final_triple_empty:
  "finalTriple equal_weight linkedRows = ([], [], [])
   \<and> fst (finalTriple last_touch linkedRows) \<noteq> []
   \<and> map (\<lambda>l. (finalSource l, finalMedium l, finalCampaign l, finalChannel l))
        (stitchedLeads (recomputeAttribution (ex_linked ex_google) 1 ex_policy_equal))
       = [(Some [], Some [], Some [], Some ''direct'')]
   \<and> map (\<lambda>l. (finalSource l, finalMedium l, finalCampaign l, finalChannel l))
        (stitchedLeads (recomputeAttribution (ex_linked ex_google) 1 ex_policy_last))
       = [(Some ''google'', Some ''cpc'', Some ''spring'', Some ''paid_search'')]"
proof -
  have g: "finalTriple equal_weight linkedRows = ([], [], []) \<and> fst (finalTriple last_touch linkedRows) \<noteq> []"
    by (simp add: finalTriple_def Let_def orElse_nonempty)
  have l: "linkedRowsOf (ex_linked ex_google) 1 = [ex_google]"
    by (simp add: linkedRowsOf_def ex_linked_def ex_google_def blankRow_def)
  have e: "map (\<lambda>l. (finalSource l, finalMedium l, finalCampaign l, finalChannel l))
        (stitchedLeads (recomputeAttribution (ex_linked ex_google) 1 ex_policy_equal))
       = [(Some [], Some [], Some [], Some ''direct'')]"
    unfolding recomputeAttribution_def l
    by (simp add: sample_defs attribution_defs string_defs Let_def)
  have t: "map (\<lambda>l. (finalSource l, finalMedium l, finalCampaign l, finalChannel l))
        (stitchedLeads (recomputeAttribution (ex_linked ex_google) 1 ex_policy_last))
       = [(Some ''google'', Some ''cpc'', Some ''spring'', Some ''paid_search'')]"
    unfolding recomputeAttribution_def l
    by (simp add: sample_defs attribution_defs string_defs Let_def)
  from g e t show ?thesis by simp
qed

lemma spec_paidMedium_eq: "spec_paidMedium row = isPaidMedium row"
  by (auto simp: spec_paidMedium_def isPaidMedium_def truthy_def toLowerCase_def split: option.splits)

lemma orElse_paid:
  "orElse v ''paid'' = (case v of None \<Rightarrow> ''paid'' | Some src \<Rightarrow> if src = [] then ''paid'' else src)"
  by (simp add: orElse_def)

lemma paidLastLoop_take:
  "n \<le> length rows \<Longrightarrow>
   paidLastLoop rows n = amended_paidLastSource (take n rows)"
proof (induction n)
  case 0
  then show ?case by (simp add: amended_paidLastSource_def)
next
  case (Suc n)
  then have "take (Suc n) rows = take n rows @ [rows ! n]"
    by (simp add: take_Suc_conv_app_nth)
  with Suc show ?case
    by (simp add: amended_paidLastSource_def spec_paidMedium_eq orElse_paid Let_def)
qed

lemma paidLastLoop_amended: "paidLastLoop rows (length rows) = amended_paidLastSource rows"
  using paidLastLoop_take [of "length rows" rows] by simp

lemma attr_paidLast: "attr_paidLastSource (computeAttribution rows policy) = amended_paidLastSource rows"
  by (simp add: computeAttribution_def Let_def paidLastLoop_amended split: prod.splits)

lemma setAttribution_paid [simp]:
  "paidLastSource (setAttribution a l) = Some (attr_paidLastSource a)"
  by (simp add: setAttribution_def)

lemma setAttribution_id [simp]: "lead_id (setAttribution a l) = lead_id l"
  by (simp add: setAttribution_def)

lemma recompute_lead_ids [simp]:
  "map lead_id (stitchedLeads (recomputeAttribution d sid policy)) = map lead_id (stitchedLeads d)"
  by (simp add: recomputeAttribution_def Let_def comp_def if_distrib cong: if_cong)

lemma linked_nosource: "linkedRowsOf (ex_linked ex_paid_nosource) 1 = [ex_paid_nosource]"
  by (simp add: linkedRowsOf_def ex_linked_def ex_paid_nosource_def blankRow_def)

text \<open>
  Claim C4 as stated fails: for a lead whose only linked event has the medium
  \<^verbatim>\<open>CPC\<close> and no source, the stored \<^verbatim>\<open>paid_last_source\<close> is the word
  \<^verbatim>\<open>paid\<close>, which is not the source of the event.
\<close>

theorem paid_last_source_counterexample:
  "linkedRowsOf (ex_linked ex_paid_nosource) 1 = [ex_paid_nosource]
   \<and> map paidLastSource (stitchedLeads (recomputeAttribution (ex_linked ex_paid_nosource) 1 ex_policy))
       = [Some ''paid'']
   \<and> utmSource ex_paid_nosource = None
   \<and> spec_paidLastSource [ex_paid_nosource] = []"
proof -
  have a: "map paidLastSource (stitchedLeads (recomputeAttribution (ex_linked ex_paid_nosource) 1 ex_policy))
       = [Some ''paid'']"
    unfolding recomputeAttribution_def linked_nosource
    by (simp add: sample_defs attribution_defs string_defs Let_def)
  have b: "spec_paidLastSource [ex_paid_nosource] = []"
    by (simp add: spec_paidLastSource_def spec_paidMedium_def sample_defs string_defs)
  from a b linked_nosource show ?thesis by (simp add: ex_paid_nosource_def blankRow_def)
qed

text \<open>
  Claim C4, amended. For a lead with a non-empty set of linked events,
  \<^verbatim>\<open>recomputeAttribution\<close> keeps the leads and stores as \<^verbatim>\<open>paid_last_source\<close> of
  the lead: the source of the latest linked event whose medium is one of
  \<^verbatim>\<open>cpc\<close>, \<^verbatim>\<open>paid\<close>, \<^verbatim>\<open>ppc\<close> without regard to case, or the word \<^verbatim>\<open>paid\<close>
  when that event has no source or an empty one; the empty string when no linked event
  has such a medium.
\<close>

theorem paid_last_source_amended:
  assumes "linkedRowsOf d stitchDbId \<noteq> []"
  shows "map lead_id (stitchedLeads (recomputeAttribution d stitchDbId policy)) = map lead_id (stitchedLeads d)
     \<and> (\<forall>l \<in> set (stitchedLeads (recomputeAttribution d stitchDbId policy)).
          lead_id l = stitchDbId \<longrightarrow>
          paidLastSource l = Some (amended_paidLastSource (linkedRowsOf d stitchDbId)))"
proof (intro conjI ballI impI)
  show "map lead_id (stitchedLeads (recomputeAttribution d stitchDbId policy)) = map lead_id (stitchedLeads d)"
    by simp
next
  fix l
  let ?a = "computeAttribution (linkedRowsOf d stitchDbId) policy"
  assume l: "l \<in> set (stitchedLeads (recomputeAttribution d stitchDbId policy))" and i: "lead_id l = stitchDbId"
  from l assms obtain x where x: "x \<in> set (stitchedLeads d)"
      "l = (if lead_id x = stitchDbId then setAttribution ?a x else x)"
    by (auto simp: recomputeAttribution_def Let_def)
  with i have "l = setAttribution ?a x" by (auto split: if_splits)
  then show "paidLastSource l = Some (amended_paidLastSource (linkedRowsOf d stitchDbId))"
    by (simp add: attr_paidLast)
qed

text \<open>The sample lead with the paid click without a source.\<close>

theorem paid_last_source_amended_witness:
  "linkedRowsOf (ex_linked ex_paid_nosource) 1 \<noteq> []
   \<and> map paidLastSource
        (stitchedLeads (recomputeAttribution (ex_linked ex_paid_nosource) 1 ex_policy))
       = [Some (amended_paidLastSource (linkedRowsOf (ex_linked ex_paid_nosource) 1))]
   \<and> amended_paidLastSource (linkedRowsOf (ex_linked ex_paid_nosource) 1) = ''paid''"
proof -
  let ?d = "ex_linked ex_paid_nosource"
  let ?d' = "recomputeAttribution ?d 1 ex_policy"
  have h: "linkedRowsOf ?d 1 \<noteq> []" by (simp add: linked_nosource)
  note inst = paid_last_source_amended [OF h, of ex_policy]
  have e: "map lead_id (stitchedLeads ?d) = [1]"
    by (simp add: ex_linked_def ex_lead_def)
  from inst have "map lead_id (stitchedLeads ?d') = map lead_id (stitchedLeads ?d)"
    by (rule conjunct1)
  then have "map lead_id (stitchedLeads ?d') = [1]"
    unfolding e .
  then obtain l where l: "stitchedLeads ?d' = [l]" "lead_id l = 1"
    unfolding map_eq_Cons_conv by blast
  from inst have "\<forall>l \<in> set (stitchedLeads ?d'). lead_id l = 1 \<longrightarrow>
          paidLastSource l = Some (amended_paidLastSource (linkedRowsOf ?d 1))"
    by (rule conjunct2)
  with l have "paidLastSource l = Some (amended_paidLastSource (linkedRowsOf ?d 1))"
    by simp
  with l have a: "map paidLastSource (stitchedLeads ?d') = [Some (amended_paidLastSource (linkedRowsOf ?d 1))]"
    by simp
  have b: "amended_paidLastSource (linkedRowsOf ?d 1) = ''paid''"
    unfolding linked_nosource
    by (simp add: amended_paidLastSource_def spec_paidMedium_def sample_defs string_defs)
  from h a b show ?thesis by (intro conjI)
qed

subsection \<open>Lead ledger and match orchestrator\<close>

lemma recompute_usage [simp]: "usageCounters (recomputeAttribution d sid policy) = usageCounters d"
  by (simp add: recomputeAttribution_def Let_def)

lemma recompute_links [simp]: "stitchLinks (recomputeAttribution d sid policy) = stitchLinks d"
  by (simp add: recomputeAttribution_def Let_def)

lemma linkRow_usage [simp]: "usageCounters (fst (linkRowToStitch e row sid c d)) = usageCounters d"
  by (simp add: linkRowToStitch_def Let_def split: option.splits)

lemma linkRow_leads [simp]: "stitchedLeads (fst (linkRowToStitch e row sid c d)) = stitchedLeads d"
  by (simp add: linkRowToStitch_def Let_def split: option.splits)

lemma linkAndRecompute_usage [simp]:
  "usageCounters (fst (fst (linkAndRecompute e policy row sid w s))) = usageCounters (fst s)"
  by (simp add: linkAndRecompute_def Let_def split: prod.splits option.splits)
     (metis fst_conv linkRow_usage)

lemma linkAndRecompute_lead_ids [simp]:
  "map lead_id (stitchedLeads (fst (fst (linkAndRecompute e policy row sid w s))))
     = map lead_id (stitchedLeads (fst s))"
  by (simp add: linkAndRecompute_def Let_def split: prod.splits option.splits)
     (metis fst_conv linkRow_leads)

lemma linkAndRecompute_new [simp]:
  "stitchedNew (snd (fst (linkAndRecompute e policy row sid w s))) = stitchedNew (snd s)"
  by (simp add: linkAndRecompute_def Let_def split: prod.splits option.splits)

lemma linkAndRecompute_errors [simp]:
  "errors (snd (fst (linkAndRecompute e policy row sid w s))) = errors (snd s)"
  by (simp add: linkAndRecompute_def Let_def split: prod.splits option.splits)

lemma tryBody_errors [simp]:
  "errors (snd (fst (tryBody e policy acct row s))) = errors (snd s)"
  by (simp add: tryBody_def Let_def createNewStitch_def incrementUsage_def
           split: option.splits sum.splits prod.splits)

lemma processRow_errors:
  "errors (snd (processRow e policy acct s row)) =
     errors (snd s) @ (case snd (tryBody e policy acct row s) of None \<Rightarrow> [] | Some err \<Rightarrow> [errorMsg row err])"
proof (cases "tryBody e policy acct row s")
  case (Pair s1 r)
  have "errors (snd s1) = errors (snd s)" using tryBody_errors [of e policy acct row s] Pair by simp
  then show ?thesis using Pair by (cases r) (simp_all add: processRow_def)
qed

lemma processRows_append:
  "processRows e policy acct s (xs @ ys) = processRows e policy acct (processRows e policy acct s xs) ys"
  by (simp add: processRows_def)

lemma processRows_Cons:
  "processRows e policy acct s (x # xs) = processRows e policy acct (processRow e policy acct s x) xs"
  by (simp add: processRows_def)

lemma processRows_Nil [simp]: "processRows e policy acct s [] = s"
  by (simp add: processRows_def)

lemma errors_prefix:
  "\<exists>es. errors (snd (processRows e policy acct s rows)) = errors (snd s) @ es \<and> length es \<le> length rows"
proof (induction rows arbitrary: s)
  case Nil
  then show ?case by simp
next
  case (Cons r rows)
  from Cons.IH [of "processRow e policy acct s r"] obtain es where
    es: "errors (snd (processRows e policy acct (processRow e policy acct s r) rows))
          = errors (snd (processRow e policy acct s r)) @ es" "length es \<le> length rows" by blast
  show ?case
    unfolding processRows_Cons es(1) processRow_errors
    using es(2) by (auto split: option.splits)
qed

lemma check_no_counter:
  "currentUsage e d acct row = [] \<Longrightarrow> \<exists>err. checkUsageLimit e d acct row = Some err"
  by (simp add: checkUsageLimit_def split: option.splits)

lemma check_no_counter_msg:
  "currentUsage e d acct row = [] \<Longrightarrow> dbFault e (rowId row) CheckUsage = None \<Longrightarrow>
   checkUsageLimit e d acct row = Some (Error ''Usage counter not found'')"
  by (simp add: checkUsageLimit_def faultAt_def)

lemma currentUsage_empty:
  "(\<forall>u \<in> set (usageCounters d). usage_accountId u = acct \<longrightarrow>
      \<not> (fst (monthBounds e (rowId row)) \<le> periodStart u \<and> periodEnd u \<le> snd (monthBounds e (rowId row))))
   \<Longrightarrow> currentUsage e d acct row = []"
  by (auto simp: currentUsage_def filter_empty_conv split: prod.splits)

lemma processRow_check_fails:
  "checkUsageLimit e (fst s) acct row = Some err \<Longrightarrow>
   processRow e policy acct s row = (fst s, (snd s)\<lparr> errors := errors (snd s) @ [errorMsg row err] \<rparr>)"
  by (simp add: processRow_def tryBody_def)

lemma processRows_all_check_fail:
  assumes "\<forall>row \<in> set rows. \<exists>err. checkUsageLimit e d acct row = Some err"
  shows "\<exists>es. processRows e policy acct (d, res) rows = (d, res\<lparr> errors := errors res @ es \<rparr>)
            \<and> length es = length rows
            \<and> ((\<forall>row \<in> set rows. checkUsageLimit e d acct row = Some (f row)) \<longrightarrow> es = map (\<lambda>row. errorMsg row (f row)) rows)"
  using assms
proof (induction rows arbitrary: res)
  case Nil
  then show ?case by simp
next
  case (Cons r rows)
  then obtain err where err: "checkUsageLimit e d acct r = Some err" by auto
  have step: "processRow e policy acct (d, res) r = (d, res\<lparr> errors := errors res @ [errorMsg r err] \<rparr>)"
    using processRow_check_fails [of e "(d, res)" acct r err policy] err by simp
  from Cons.IH [of "res\<lparr> errors := errors res @ [errorMsg r err] \<rparr>"] Cons.prems
  obtain es where es: "processRows e policy acct (d, res\<lparr> errors := errors res @ [errorMsg r err] \<rparr>) rows
        = (d, res\<lparr> errors := errors res @ [errorMsg r err] @ es \<rparr>)" "length es = length rows"
     "(\<forall>row \<in> set rows. checkUsageLimit e d acct row = Some (f row)) \<longrightarrow> es = map (\<lambda>row. errorMsg row (f row)) rows"
    by auto
  show ?case
    unfolding processRows_Cons step es(1)
    using es(2,3) err by (intro exI [of _ "errorMsg r err # es"]) auto
qed

text \<open>
  Claim C10. When no usage counter of the account has its period inside the month
  computed at any event of the batch, the usage check throws for every event: the job
  returns, the database is unchanged, no lead and no link is created, and the error list
  has one entry per event (the entry of a missing counter, when the query of the check
  itself does not fail).
\<close>

theorem missing_usage_counter_fails_every_event:
  assumes "selectFault e = None"
    and "\<forall>row \<in> set (selectRows d acct uploadIds). \<forall>u \<in> set (usageCounters d).
           usage_accountId u = acct \<longrightarrow>
           \<not> (fst (monthBounds e (rowId row)) \<le> periodStart u \<and>
              periodEnd u \<le> snd (monthBounds e (rowId row)))"
  shows "\<exists>res. runMatch e acct uploadIds policy d = Inr (d, res) \<and>
           stitchedNew res = 0 \<and> linksCreated res = 0 \<and>
           length (errors res) = length (selectRows d acct uploadIds) \<and>
           ((\<forall>rid. dbFault e rid CheckUsage = None) \<longrightarrow>
              errors res = map (\<lambda>row. errorMsg row (Error ''Usage counter not found''))
                             (selectRows d acct uploadIds))"
proof -
  let ?rows = "selectRows d acct uploadIds"
  let ?r0 = "\<lparr> stitchedNew = 0, linksCreated = 0, errors = [] \<rparr>"
  have empty: "\<forall>row \<in> set ?rows. currentUsage e d acct row = []"
    using assms(2) by (blast intro: currentUsage_empty)
  then have fails: "\<forall>row \<in> set ?rows. \<exists>err. checkUsageLimit e d acct row = Some err"
    by (blast dest: check_no_counter)
  from processRows_all_check_fail [OF fails, of policy ?r0 "\<lambda>_. Error ''Usage counter not found''"]
  obtain es where es: "processRows e policy acct (d, ?r0) ?rows = (d, ?r0\<lparr> errors := errors ?r0 @ es \<rparr>)"
    "length es = length ?rows"
    "(\<forall>row \<in> set ?rows. checkUsageLimit e d acct row = Some (Error ''Usage counter not found'')) \<longrightarrow>
       es = map (\<lambda>row. errorMsg row (Error ''Usage counter not found'')) ?rows"
    by blast
  have "(\<forall>rid. dbFault e rid CheckUsage = None) \<longrightarrow>
        (\<forall>row \<in> set ?rows. checkUsageLimit e d acct row = Some (Error ''Usage counter not found''))"
    using empty by (auto intro: check_no_counter_msg)
  with es show ?thesis
    using assms(1) by (simp add: runMatch_def)
qed

text \<open>
  The counter of an account registered on the fifth day of the month and a batch of two
  events.
\<close>

theorem missing_usage_counter_fails_every_event_witness:
  "selectFault ex_env = None
   \<and> selectRows (ex_batch [ex_row1, ex_row2] [ex_counter_registered]) 1 [1] = [ex_row1, ex_row2]
   \<and> runMatch ex_env 1 [1] ex_policy (ex_batch [ex_row1, ex_row2] [ex_counter_registered])
     = Inr (ex_batch [ex_row1, ex_row2] [ex_counter_registered],
            \<lparr> stitchedNew = 0, linksCreated = 0,
              errors = [''Failed to process row 1: Usage counter not found'',
                        ''Failed to process row 2: Usage counter not found''] \<rparr>)"
proof -
  let ?d = "ex_batch [ex_row1, ex_row2] [ex_counter_registered]"
  have h1: "selectFault ex_env = None" by (simp add: ex_env_def)
  have rows: "selectRows ?d 1 [1] = [ex_row1, ex_row2]"
    by (simp add: selectRows_def sample_defs)
  have h2: "\<forall>row \<in> set (selectRows ?d 1 [1]). \<forall>u \<in> set (usageCounters ?d).
           usage_accountId u = 1 \<longrightarrow>
           \<not> (fst (monthBounds ex_env (rowId row)) \<le> periodStart u \<and>
              periodEnd u \<le> snd (monthBounds ex_env (rowId row)))"
    unfolding rows by (simp add: sample_defs)
  have nf: "\<forall>rid. dbFault ex_env rid CheckUsage = None" by (simp add: ex_env_def)
  from missing_usage_counter_fails_every_event [OF h1 h2, of ex_policy] nf
  obtain res where res: "runMatch ex_env 1 [1] ex_policy ?d = Inr (?d, res)"
     "stitchedNew res = 0" "linksCreated res = 0"
     "errors res = map (\<lambda>row. errorMsg row (Error ''Usage counter not found'')) (selectRows ?d 1 [1])"
    by blast
  have "errors res = [''Failed to process row 1: Usage counter not found'',
                        ''Failed to process row 2: Usage counter not found'']"
    unfolding res(4) rows by (simp add: errorMsg_def sample_defs string_defs)
  with res(2,3) have "res = \<lparr> stitchedNew = 0, linksCreated = 0,
              errors = [''Failed to process row 1: Usage counter not found'',
                        ''Failed to process row 2: Usage counter not found''] \<rparr>"
    by (cases res) simp
  with res(1) h1 rows show ?thesis by simp
qed

lemma processRow_failed:
  "tryBody e policy acct row s = (s1, Some err) \<Longrightarrow>
   processRow e policy acct s row = (fst s1, (snd s1)\<lparr> errors := errors (snd s1) @ [errorMsg row err] \<rparr>)"
  by (simp add: processRow_def)

text \<open>
  Claim C6. Whatever fails inside the processing of events, a job whose batch could be
  read returns a summary, with at most one error per event. When the processing of an
  event of the batch throws, at any stage, the message with the row id of the event and
  the message of the error is in the error list of the summary, and the job goes on with
  the events after it, from the database and the counts as the failed event left them.
\<close>

theorem event_failure_recorded_job_continues:
  assumes "selectFault e = None"
  shows "(\<exists>d' res. runMatch e acct uploadIds policy d = Inr (d', res) \<and>
            length (errors res) \<le> length (selectRows d acct uploadIds))
       \<and> (\<forall>pre row post s1 err.
            selectRows d acct uploadIds = pre @ row # post \<and>
            tryBody e policy acct row
              (processRows e policy acct (d, \<lparr> stitchedNew = 0, linksCreated = 0, errors = [] \<rparr>) pre)
              = (s1, Some err) \<longrightarrow>
            (\<exists>d' res. runMatch e acct uploadIds policy d = Inr (d', res) \<and>
               errorMsg row err \<in> set (errors res) \<and>
               (d', res) = processRows e policy acct
                  (fst s1, (snd s1)\<lparr> errors := errors (snd s1) @ [errorMsg row err] \<rparr>) post))"
proof (intro conjI allI impI)
  let ?r0 = "\<lparr> stitchedNew = 0, linksCreated = 0, errors = [] \<rparr>"
  let ?rows = "selectRows d acct uploadIds"
  have run: "runMatch e acct uploadIds policy d = Inr (processRows e policy acct (d, ?r0) ?rows)"
    using assms by (simp add: runMatch_def)
  from errors_prefix [of e policy acct "(d, ?r0)" ?rows]
  have "length (errors (snd (processRows e policy acct (d, ?r0) ?rows))) \<le> length ?rows"
    by auto
  then show "\<exists>d' res. runMatch e acct uploadIds policy d = Inr (d', res) \<and>
            length (errors res) \<le> length ?rows"
    unfolding run by (cases "processRows e policy acct (d, ?r0) ?rows") auto
next
  fix pre row post and s1 :: "db \<times> MatchResult" and err
  let ?r0 = "\<lparr> stitchedNew = 0, linksCreated = 0, errors = [] \<rparr>"
  let ?rows = "selectRows d acct uploadIds"
  let ?s = "processRows e policy acct (d, ?r0) pre"
  let ?s2 = "(fst s1, (snd s1)\<lparr> errors := errors (snd s1) @ [errorMsg row err] \<rparr>)"
  assume a: "?rows = pre @ row # post \<and> tryBody e policy acct row ?s = (s1, Some err)"
  have run: "runMatch e acct uploadIds policy d = Inr (processRows e policy acct (d, ?r0) ?rows)"
    using assms by (simp add: runMatch_def)
  have split: "processRows e policy acct (d, ?r0) ?rows = processRows e policy acct ?s2 post"
    using a processRow_failed [of e policy acct row ?s s1 err]
    by (simp add: processRows_append processRows_Cons)
  from errors_prefix [of e policy acct ?s2 post]
  have "errorMsg row err \<in> set (errors (snd (processRows e policy acct ?s2 post)))"
    by auto
  then show "\<exists>d' res. runMatch e acct uploadIds policy d = Inr (d', res) \<and>
               errorMsg row err \<in> set (errors res) \<and>
               (d', res) = processRows e policy acct ?s2 post"
    unfolding run split by (cases "processRows e policy acct ?s2 post") auto
qed

text \<open>
  Three events, the insert of the link failing for the second: its error is recorded,
  the first and the third are linked.
\<close>

theorem event_failure_recorded_job_continues_witness:
  "selectFault ex_env_fault = None
   \<and> selectRows (ex_batch [ex_row1, ex_row2, ex_row3] [ex_counter 0]) 1 [1]
       = [ex_row1] @ ex_row2 # [ex_row3]
   \<and> snd (tryBody ex_env_fault ex_policy 1 ex_row2
            (processRows ex_env_fault ex_policy 1
               (ex_batch [ex_row1, ex_row2, ex_row3] [ex_counter 0],
                \<lparr> stitchedNew = 0, linksCreated = 0, errors = [] \<rparr>) [ex_row1]))
       = Some (Error ''connection reset'')
   \<and> (\<exists>d' res. runMatch ex_env_fault 1 [1] ex_policy
                   (ex_batch [ex_row1, ex_row2, ex_row3] [ex_counter 0]) = Inr (d', res)
         \<and> ''Failed to process row 2: connection reset'' \<in> set (errors res))
   \<and> map_sum id snd (runMatch ex_env_fault 1 [1] ex_policy
                       (ex_batch [ex_row1, ex_row2, ex_row3] [ex_counter 0]))
       = Inr \<lparr> stitchedNew = 3, linksCreated = 2,
               errors = [''Failed to process row 2: connection reset''] \<rparr>"
proof -
  let ?d = "ex_batch [ex_row1, ex_row2, ex_row3] [ex_counter 0]"
  let ?r0 = "\<lparr> stitchedNew = 0, linksCreated = 0, errors = [] \<rparr>"
  let ?tb = "tryBody ex_env_fault ex_policy 1 ex_row2 (processRows ex_env_fault ex_policy 1 (?d, ?r0) [ex_row1])"
  have h1: "selectFault ex_env_fault = None" by (simp add: sample_defs)
  have rows: "selectRows ?d 1 [1] = [ex_row1] @ ex_row2 # [ex_row3]"
    by (simp add: selectRows_def sample_defs)
  have tb: "snd ?tb = Some (Error ''connection reset'')"
    by (simp add: sample_defs ledger_defs string_defs matcher_defs attribution_defs Let_def)
  then have tb2: "?tb = (fst ?tb, Some (Error ''connection reset''))"
    by (metis prod.collapse)
  from event_failure_recorded_job_continues [OF h1, of 1 "[1]" ex_policy ?d, THEN conjunct2, rule_format, of "[ex_row1]" ex_row2 "[ex_row3]" "fst ?tb" "Error ''connection reset''"]
    rows tb2
  obtain d' res where r: "runMatch ex_env_fault 1 [1] ex_policy ?d = Inr (d', res)"
     "errorMsg ex_row2 (Error ''connection reset'') \<in> set (errors res)"
    by blast
  have m: "errorMsg ex_row2 (Error ''connection reset'') = ''Failed to process row 2: connection reset''"
    by (simp add: errorMsg_def sample_defs string_defs)
  have ex: "\<exists>d' res. runMatch ex_env_fault 1 [1] ex_policy ?d = Inr (d', res)
         \<and> ''Failed to process row 2: connection reset'' \<in> set (errors res)"
    using r unfolding m by blast
  have run: "map_sum id snd (runMatch ex_env_fault 1 [1] ex_policy ?d)
       = Inr \<lparr> stitchedNew = 3, linksCreated = 2,
               errors = [''Failed to process row 2: connection reset''] \<rparr>"
    by (simp add: sample_defs ledger_defs string_defs matcher_defs attribution_defs Let_def)
  from h1 rows tb ex run show ?thesis by (intro conjI)
qed

lemma tryBody_winner:
  assumes "fst (pickBestCandidate (findMatchingStitches e row policy acct (fst s)) policy row) = Some w"
  shows "usageCounters (fst (fst (tryBody e policy acct row s))) = usageCounters (fst s)"
    and "stitchedNew (snd (fst (tryBody e policy acct row s))) = stitchedNew (snd s)"
    and "map lead_id (stitchedLeads (fst (fst (tryBody e policy acct row s)))) = map lead_id (stitchedLeads (fst s))"
  using assms by (simp_all add: tryBody_def Let_def split: option.splits)

lemma showInt_limit: "showInt limit = ''250''"
  by (simp add: limit_def showInt_def showNat.simps)

lemma linkRow_nofault:
  "\<forall>st. dbFault e (rowId row) st = None \<Longrightarrow>
   snd (linkRowToStitch e row sid c d) = None \<and>
   stitchLinks (fst (linkRowToStitch e row sid c d)) = stitchLinks d @
     [\<lparr> link_accountId = accountId row, link_stitchId = sid,
        normalizedRowId = rowId row, matchPass = passOr c,
        link_keys = keysOr c, link_windowDays = 0, link_reason = reasonOr c \<rparr>]"
  by (simp add: linkRowToStitch_def faultAt_def Let_def)

text \<open>
  Claim C2 as stated fails: for a call from the phone of the sample lead the resolver
  returns the P1 candidate, and with the counter at 250 the event is failed with
  \<^verbatim>\<open>UsageLimitError\<close>.
\<close>

theorem matched_event_fails_at_limit_counterexample:
  "fst (pickBestCandidate (findMatchingStitches ex_env ex_call29 ex_policy 1 (ex_db 250))
          ex_policy ex_call29)
     = Some \<lparr> stitchId = 1, weight = 1, pass = ''P1'', matchedOn = [''phone''],
              reason = ''Phone exact match: 5550100'', confidence = 0.9 \<rparr>
   \<and> tryBody ex_env ex_policy 1 ex_call29 (ex_db 250, emptyResult)
     = ((ex_db 250, emptyResult),
        Some (UsageLimitError ''Monthly limit of 250 stitched leads exceeded''))"
  by (simp add: sample_defs ledger_defs string_defs matcher_defs Let_def)

text \<open>
  Claim C2, amended. For an event for which the resolver returns a winner, the loop body
  increments no usage counter, counts no new lead and creates no lead. The usage check
  runs first for every event: when the counter it reads has reached the limit the event
  is failed with \<^verbatim>\<open>UsageLimitError\<close> and nothing is written, whether a lead matches
  or not. When the check passes and the database does not fail, the event with a winner
  is linked to the lead of the winner, with its pass, its keys and its reason.
\<close>

theorem winner_skips_increment_not_check_amended:
  "(fst (pickBestCandidate (findMatchingStitches e row policy acct (fst s)) policy row) = Some w \<longrightarrow>
       usageCounters (fst (fst (tryBody e policy acct row s))) = usageCounters (fst s) \<and>
       stitchedNew (snd (fst (tryBody e policy acct row s))) = stitchedNew (snd s) \<and>
       map lead_id (stitchedLeads (fst (fst (tryBody e policy acct row s)))) = map lead_id (stitchedLeads (fst s)))
   \<and> (dbFault e (rowId row) CheckUsage = None \<and> currentUsage e (fst s) acct row = [u] \<and>
       limit \<le> stitchedCount u \<longrightarrow>
       tryBody e policy acct row s
         = (s, Some (UsageLimitError ''Monthly limit of 250 stitched leads exceeded'')))
   \<and> (fst (pickBestCandidate (findMatchingStitches e row policy acct (fst s)) policy row) = Some w \<and>
       checkUsageLimit e (fst s) acct row = None \<and> (\<forall>st. dbFault e (rowId row) st = None) \<longrightarrow>
       snd (tryBody e policy acct row s) = None \<and>
       linksCreated (snd (fst (tryBody e policy acct row s))) = linksCreated (snd s) + 1 \<and>
       stitchLinks (fst (fst (tryBody e policy acct row s))) = stitchLinks (fst s) @
         [\<lparr> link_accountId = accountId row, link_stitchId = stitchId w,
            normalizedRowId = rowId row, matchPass = passOr (Some w),
            link_keys = matchedOn w, link_windowDays = 0, link_reason = reasonOr (Some w) \<rparr>])"
proof -
  have p1: "fst (pickBestCandidate (findMatchingStitches e row policy acct (fst s)) policy row) = Some w \<longrightarrow>
       usageCounters (fst (fst (tryBody e policy acct row s))) = usageCounters (fst s) \<and>
       stitchedNew (snd (fst (tryBody e policy acct row s))) = stitchedNew (snd s) \<and>
       map lead_id (stitchedLeads (fst (fst (tryBody e policy acct row s)))) = map lead_id (stitchedLeads (fst s))"
    using tryBody_winner [of e row policy acct s w] by blast
  have p2: "dbFault e (rowId row) CheckUsage = None \<and> currentUsage e (fst s) acct row = [u] \<and>
       limit \<le> stitchedCount u \<longrightarrow>
       tryBody e policy acct row s
         = (s, Some (UsageLimitError ''Monthly limit of 250 stitched leads exceeded''))"
  proof
    assume "dbFault e (rowId row) CheckUsage = None \<and> currentUsage e (fst s) acct row = [u] \<and> limit \<le> stitchedCount u"
    then have "checkUsageLimit e (fst s) acct row = Some (UsageLimitError ''Monthly limit of 250 stitched leads exceeded'')"
      by (simp add: checkUsageLimit_def faultAt_def showInt_limit)
    then show "tryBody e policy acct row s = (s, Some (UsageLimitError ''Monthly limit of 250 stitched leads exceeded''))"
      by (simp add: tryBody_def)
  qed
  have p3: "fst (pickBestCandidate (findMatchingStitches e row policy acct (fst s)) policy row) = Some w \<and>
       checkUsageLimit e (fst s) acct row = None \<and> (\<forall>st. dbFault e (rowId row) st = None) \<longrightarrow>
       snd (tryBody e policy acct row s) = None \<and>
       linksCreated (snd (fst (tryBody e policy acct row s))) = linksCreated (snd s) + 1 \<and>
       stitchLinks (fst (fst (tryBody e policy acct row s))) = stitchLinks (fst s) @
         [\<lparr> link_accountId = accountId row, link_stitchId = stitchId w,
            normalizedRowId = rowId row, matchPass = passOr (Some w),
            link_keys = matchedOn w, link_windowDays = 0, link_reason = reasonOr (Some w) \<rparr>]"
  proof
    assume a: "fst (pickBestCandidate (findMatchingStitches e row policy acct (fst s)) policy row) = Some w \<and>
         checkUsageLimit e (fst s) acct row = None \<and> (\<forall>st. dbFault e (rowId row) st = None)"
    then have ff: "\<And>st. faultAt e row st = None" by (simp add: faultAt_def)
    from a have nf: "\<forall>st. dbFault e (rowId row) st = None" by simp
    have tb: "tryBody e policy acct row s = linkAndRecompute e policy row (stitchId w) (Some w) s"
      using a by (simp add: tryBody_def ff Let_def)
    obtain d1 where d1: "linkRowToStitch e row (stitchId w) (Some w) (fst s) = (d1, None)"
      using linkRow_nofault [OF nf, of "stitchId w" "Some w" "fst s"]
      by (cases "linkRowToStitch e row (stitchId w) (Some w) (fst s)") auto
    have lr: "linkAndRecompute e policy row (stitchId w) (Some w) s
        = ((recomputeAttribution d1 (stitchId w) policy, (snd s)\<lparr> linksCreated := linksCreated (snd s) + 1 \<rparr>), None)"
      by (simp add: linkAndRecompute_def d1 ff Let_def)
    have links: "stitchLinks d1 = stitchLinks (fst s) @
           [\<lparr> link_accountId = accountId row, link_stitchId = stitchId w,
              normalizedRowId = rowId row, matchPass = passOr (Some w),
              link_keys = matchedOn w, link_windowDays = 0, link_reason = reasonOr (Some w) \<rparr>]"
      using linkRow_nofault [OF nf, of "stitchId w" "Some w" "fst s"] d1 by (simp add: keysOr_def)
    show "snd (tryBody e policy acct row s) = None \<and>
         linksCreated (snd (fst (tryBody e policy acct row s))) = linksCreated (snd s) + 1 \<and>
         stitchLinks (fst (fst (tryBody e policy acct row s))) = stitchLinks (fst s) @
           [\<lparr> link_accountId = accountId row, link_stitchId = stitchId w,
              normalizedRowId = rowId row, matchPass = passOr (Some w),
              link_keys = matchedOn w, link_windowDays = 0, link_reason = reasonOr (Some w) \<rparr>]"
      unfolding tb lr using links by simp
  qed
  from p1 p2 p3 show ?thesis by (intro conjI)
qed

text \<open>The call from the phone of the sample lead, with the counter at 0 and at 250.\<close>

theorem winner_skips_increment_not_check_amended_witness:
  "fst (pickBestCandidate (findMatchingStitches ex_env ex_call29 ex_policy 1 (ex_db 0))
          ex_policy ex_call29)
     = Some \<lparr> stitchId = 1, weight = 1, pass = ''P1'', matchedOn = [''phone''],
              reason = ''Phone exact match: 5550100'', confidence = 0.9 \<rparr>
   \<and> checkUsageLimit ex_env (ex_db 0) 1 ex_call29 = None
   \<and> usageCounters (fst (fst (tryBody ex_env ex_policy 1 ex_call29 (ex_db 0, emptyResult))))
       = usageCounters (ex_db 0)
   \<and> snd (tryBody ex_env ex_policy 1 ex_call29 (ex_db 0, emptyResult)) = None
   \<and> stitchLinks (fst (fst (tryBody ex_env ex_policy 1 ex_call29 (ex_db 0, emptyResult))))
       = [\<lparr> link_accountId = 1, link_stitchId = 1, normalizedRowId = 7, matchPass = ''P1'',
            link_keys = [''phone''], link_windowDays = 0,
            link_reason = ''Phone exact match: 5550100'' \<rparr>]
   \<and> dbFault ex_env (rowId ex_call29) CheckUsage = None
   \<and> currentUsage ex_env (ex_db 250) 1 ex_call29 = [ex_counter 250]
   \<and> limit \<le> stitchedCount (ex_counter 250)
   \<and> tryBody ex_env ex_policy 1 ex_call29 (ex_db 250, emptyResult)
       = ((ex_db 250, emptyResult),
          Some (UsageLimitError ''Monthly limit of 250 stitched leads exceeded''))"
proof -
  let ?w = "\<lparr> stitchId = 1, weight = 1, pass = ''P1'', matchedOn = [''phone''],
              reason = ''Phone exact match: 5550100'', confidence = 0.9 \<rparr>"
  let ?s = "(ex_db 0, emptyResult)"
  let ?s' = "(ex_db 250, emptyResult)"
  have w: "fst (pickBestCandidate (findMatchingStitches ex_env ex_call29 ex_policy 1 (fst ?s))
          ex_policy ex_call29) = Some ?w"
    by (simp add: sample_defs string_defs matcher_defs Let_def)
  have chk: "checkUsageLimit ex_env (fst ?s) 1 ex_call29 = None"
    by (simp add: sample_defs ledger_defs Let_def)
  have nf: "\<forall>st. dbFault ex_env (rowId ex_call29) st = None" by (simp add: ex_env_def)
  have f0: "dbFault ex_env (rowId ex_call29) CheckUsage = None" by (simp add: ex_env_def)
  have cu: "currentUsage ex_env (fst ?s') 1 ex_call29 = [ex_counter 250]"
    by (simp add: sample_defs ledger_defs Let_def)
  have lim: "limit \<le> stitchedCount (ex_counter 250)" by (simp add: limit_def ex_counter_def)
  note inst = winner_skips_increment_not_check_amended [of ex_env ex_call29 ex_policy 1 ?s ?w]
  note inst' = winner_skips_increment_not_check_amended [of ex_env ex_call29 ex_policy 1 ?s' _ "ex_counter 250"]
  from inst [THEN conjunct1, THEN mp, OF w]
  have a: "usageCounters (fst (fst (tryBody ex_env ex_policy 1 ex_call29 ?s))) = usageCounters (ex_db 0)"
    by simp
  from inst [THEN conjunct2, THEN conjunct2, THEN mp, OF conjI [OF w conjI [OF chk nf]]]
  have b: "snd (tryBody ex_env ex_policy 1 ex_call29 ?s) = None"
    and c: "stitchLinks (fst (fst (tryBody ex_env ex_policy 1 ex_call29 ?s)))
       = [\<lparr> link_accountId = 1, link_stitchId = 1, normalizedRowId = 7, matchPass = ''P1'',
            link_keys = [''phone''], link_windowDays = 0,
            link_reason = ''Phone exact match: 5550100'' \<rparr>]"
    by (simp_all add: sample_defs passOr_def reasonOr_def)
  from inst' [THEN conjunct2, THEN conjunct1, THEN mp, OF conjI [OF f0 conjI [OF cu lim]]]
  have d: "tryBody ex_env ex_policy 1 ex_call29 ?s'
       = (?s', Some (UsageLimitError ''Monthly limit of 250 stitched leads exceeded''))" .
  from w chk a b c f0 cu lim d show ?thesis by simp
qed

text \<open>
  Claim C1, on the code. The check compares the counter with the constant 250, where the
  comment beside it says the limit should come from the plan, as the usage route reads
  it. For an account on a plan with a limit of 100 whose counter is at 100, an event
  without a matching key creates a lead and the counter becomes 101, above the limit of
  the plan; the claim gives \<open>min 100 (100 + 1) = 100\<close> and an error for the event.
\<close>

theorem usage_check_ignores_plan_limit:
  "map_sum id (\<lambda>(d', res). (map stitchedCount (usageCounters d'), map lead_id (stitchedLeads d'),
                              stitchedNew res, errors res))
      (runMatch ex_env 1 [1] ex_policy (ex_batch [ex_row1] [ex_counter 100]))
     = Inr ([101], [1], 1, [])
   \<and> spec_finalUsage 100 100 1 = 100
   \<and> limit = 250"
proof -
  have run: "map_sum id (\<lambda>(d', res). (map stitchedCount (usageCounters d'), map lead_id (stitchedLeads d'),
                              stitchedNew res, errors res))
      (runMatch ex_env 1 [1] ex_policy (ex_batch [ex_row1] [ex_counter 100]))
     = Inr ([101], [1], 1, [])"
    by (simp add: sample_defs ledger_defs string_defs matcher_defs attribution_defs Let_def)
  have spec: "spec_finalUsage 100 100 1 = 100" by (simp add: spec_finalUsage_def)
  have lim: "limit = 250" by (simp add: limit_def)
  from run spec lim show ?thesis by (intro conjI)
qed

subsection \<open>Policy validation\<close>

lemma validate_ok_iff:
  "(\<exists>p. validatePolicyYaml parsed = Inr p) \<longleftrightarrow> (\<exists>policy. parsed = Inr policy \<and> structureError policy = None)"
  by (auto simp: validatePolicyYaml_def split: sum.splits option.splits)

lemma name_ok: "(jsTruthy v \<and> typeofString v) \<longleftrightarrow> (case v of Some (YStr n) \<Rightarrow> n \<noteq> [] | _ \<Rightarrow> False)"
  by (auto simp: jsTruthy_def typeofString_def split: option.splits yaml.splits)

lemma mode_ok: "(jsTruthy v \<and> modeIncluded v) \<longleftrightarrow> (case v of Some (YStr m) \<Rightarrow> m \<in> set attributionModes | _ \<Rightarrow> False)"
  by (auto simp: jsTruthy_def modeIncluded_def attributionModes_def split: option.splits yaml.splits)

lemma object_ok: "(jsTruthy v \<and> typeofObject v) \<longleftrightarrow> (case v of Some (YMap kvs) \<Rightarrow> True | Some (YSeq xs) \<Rightarrow> True | _ \<Rightarrow> False)"
  by (auto simp: jsTruthy_def typeofObject_def split: option.splits yaml.splits)

lemma structureError_None:
  "structureError policy = None \<longleftrightarrow>
     spec_hasName policy \<and> spec_hasMode policy \<and> amended_hasMapOrSeq policy ''windows'' \<and>
     amended_hasMapOrSeq policy ''weights''"
proof (cases "policy = YNull")
  case True
  then show ?thesis by (simp add: structureError_def spec_hasName_def getProp_def)
next
  case False
  have "structureError policy = None \<longleftrightarrow>
     (jsTruthy (getProp policy ''name'') \<and> typeofString (getProp policy ''name'')) \<and>
     (jsTruthy (getProp policy ''attribution_mode'') \<and> modeIncluded (getProp policy ''attribution_mode'')) \<and>
     (jsTruthy (getProp policy ''windows'') \<and> typeofObject (getProp policy ''windows'')) \<and>
     (jsTruthy (getProp policy ''weights'') \<and> typeofObject (getProp policy ''weights''))"
    using False by (auto simp: structureError_def)
  then show ?thesis
    unfolding name_ok mode_ok object_ok
    by (simp add: spec_hasName_def spec_hasMode_def amended_hasMapOrSeq_def)
qed

lemma getProp_unknown:
  "k \<noteq> k' \<Longrightarrow> getProp (YMap ((k, v) # kvs)) k' = getProp (YMap kvs) k'"
  by (simp add: getProp_def)

text \<open>
  Claim C5 as stated fails: a document with a name, a recognised mode and sequences in
  the place of the maps of windows and weights has no such map, and the validator
  returns it. (A document whose entry for the windows is present but is a number is
  rejected.)
\<close>

theorem policy_validation_counterexample:
  "validatePolicyYaml ex_doc_seq
     = Inr (YMap [(''name'', YStr ''Dental''), (''attribution_mode'', YStr ''equal_weight''),
                  (''windows'', YSeq [YNum 14]), (''weights'', YSeq [YNum 1])])
   \<and> \<not> spec_policyAccepted ex_doc_seq
   \<and> validatePolicyYaml ex_doc_num
     = Inl (ValidationError ''Invalid YAML policy: Policy must have windows configuration'')"
  by (simp add: validatePolicyYaml_def structureError_def ex_doc_seq_def ex_doc_num_def getProp_def
        jsTruthy_def typeofString_def typeofObject_def modeIncluded_def attributionModes_def
        spec_policyAccepted_def spec_hasMap_def spec_hasName_def spec_hasMode_def)

text \<open>
  Claim C5, amended. \<^verbatim>\<open>validatePolicyYaml\<close> returns a document exactly when it can be
  read and has a non-empty string as name, one of the five attribution modes, and for
  each of \<^verbatim>\<open>windows\<close> and \<^verbatim>\<open>weights\<close> a map or a sequence; it returns the document
  as parsed, and a key other than these four in front of a map changes nothing to the
  outcome. The function of the model has no effect besides its result.
\<close>

theorem policy_validation_amended:
  "((\<exists>p. validatePolicyYaml parsed = Inr p) \<longleftrightarrow> amended_policyAccepted parsed)
   \<and> (validatePolicyYaml parsed = Inr p \<longrightarrow> parsed = Inr p)
   \<and> (k \<notin> set [''name'', ''attribution_mode'', ''windows'', ''weights''] \<longrightarrow>
        ((\<exists>p. validatePolicyYaml (Inr (YMap ((k, v) # kvs))) = Inr p)
           \<longleftrightarrow> (\<exists>p. validatePolicyYaml (Inr (YMap kvs)) = Inr p)))"
proof -
  have a: "(\<exists>p. validatePolicyYaml parsed = Inr p) \<longleftrightarrow> amended_policyAccepted parsed"
    unfolding validate_ok_iff
    by (cases parsed) (simp_all add: amended_policyAccepted_def structureError_None)
  have b: "validatePolicyYaml parsed = Inr p \<longrightarrow> parsed = Inr p"
    by (auto simp: validatePolicyYaml_def split: sum.splits option.splits)
  have c: "k \<notin> set [''name'', ''attribution_mode'', ''windows'', ''weights''] \<longrightarrow>
        ((\<exists>p. validatePolicyYaml (Inr (YMap ((k, v) # kvs))) = Inr p)
           \<longleftrightarrow> (\<exists>p. validatePolicyYaml (Inr (YMap kvs)) = Inr p))"
    unfolding validate_ok_iff
    by (simp add: structureError_None spec_hasName_def spec_hasMode_def amended_hasMapOrSeq_def getProp_unknown)
  from a b c show ?thesis by (intro conjI)
qed

text \<open>The default policy \<^verbatim>\<open>dental_equal_weight\<close> with an unknown key.\<close>

theorem policy_validation_amended_witness:
  "validatePolicyYaml (Inr (YMap ((''notes'', YStr ''x'') # ex_doc_fields)))
     = Inr (YMap ((''notes'', YStr ''x'') # ex_doc_fields))
   \<and> ''notes'' \<notin> set [''name'', ''attribution_mode'', ''windows'', ''weights'']
   \<and> amended_policyAccepted (Inr (YMap ((''notes'', YStr ''x'') # ex_doc_fields)))
   \<and> (\<exists>p. validatePolicyYaml (Inr (YMap ex_doc_fields)) = Inr p)"
proof -
  let ?doc = "YMap ((''notes'', YStr ''x'') # ex_doc_fields)"
  have v: "validatePolicyYaml (Inr ?doc) = Inr ?doc"
    by (simp add: validatePolicyYaml_def structureError_def ex_doc_fields_def getProp_def
          jsTruthy_def typeofString_def typeofObject_def modeIncluded_def attributionModes_def)
  have k: "''notes'' \<notin> set [''name'', ''attribution_mode'', ''windows'', ''weights'']" by simp
  note inst = policy_validation_amended [of "Inr ?doc" ?doc "''notes''" "YStr ''x''" ex_doc_fields]
  from v have e: "\<exists>p. validatePolicyYaml (Inr ?doc) = Inr p" by blast
  from inst [THEN conjunct1, THEN iffD1, OF e]
  have a: "amended_policyAccepted (Inr ?doc)" .
  from inst [THEN conjunct2, THEN conjunct2, THEN mp, OF k, THEN iffD1, OF e]
  have b: "\<exists>p. validatePolicyYaml (Inr (YMap ex_doc_fields)) = Inr p" .
  from v k a b show ?thesis by (intro conjI)
qed

end
